theory Spec2Isabelle
  imports Main "HOL-Library.Multiset"
begin

section \<open>Data model\<close>

text \<open>
  The embedding follows \<^verbatim>\<open>search_r1/llm_agent/tensor_helper.py\<close>.

  A 2-D torch tensor is a record of its width and its rows. The width is kept beside the
  rows because a tensor with no rows still has a second dimension
  (\<^verbatim>\<open>responses.shape[1]\<close> is read also when no example is active). The first
  dimension is the number of rows. A 1-D tensor is a list.

  Token ids, masks and position ids are int64 tensors; they are modelled as unbounded
  \<open>int\<close>: the arithmetic of the source is sums of mask cells along a row, which stay
  within the row width.
\<close>

record 'a tensor2 =
  ncols :: nat
  rows :: "'a list list"

definition nrows :: "'a tensor2 \<Rightarrow> nat" where
  "nrows t = length (rows t)"

definition wf_tensor :: "'a tensor2 \<Rightarrow> bool" where
  "wf_tensor t = list_all (\<lambda>r. length r = ncols t) (rows t)"

record TensorConfig =
  pad_token_id :: int
  max_prompt_length :: int
  max_obs_length :: int
  max_start_length :: int

text \<open>The exceptions that the modelled operations can raise.\<close>

datatype py_error = KeyError | RuntimeError | AssertionError | IndexError | ValueError

section \<open>Library primitives used by the source\<close>

text \<open>Python's \<^verbatim>\<open>max\<close> of a list: \<^verbatim>\<open>ValueError\<close> on the empty list.\<close>

fun py_max :: "nat list \<Rightarrow> py_error + nat" where
  "py_max [] = Inl ValueError"
| "py_max (x # xs) = Inr (fold max xs x)"

text \<open>\<^verbatim>\<open>Tensor.max()\<close> of a 1-D tensor: torch raises on a tensor with no element.\<close>

fun tensor_max :: "int list \<Rightarrow> py_error + int" where
  "tensor_max [] = Inl RuntimeError"
| "tensor_max (x # xs) = Inr (fold max xs x)"

text \<open>\<^verbatim>\<open>torch.full((n, w), v)\<close>.\<close>

definition full :: "nat \<Rightarrow> nat \<Rightarrow> 'a \<Rightarrow> 'a tensor2" where
  "full n w v = \<lparr>ncols = w, rows = replicate n (replicate w v)\<rparr>"

text \<open>A cell-wise operation (\<^verbatim>\<open>t != c\<close>, \<^verbatim>\<open>t - 1\<close>, \<^verbatim>\<open>torch.where\<close>, a dtype cast).\<close>

definition map_tensor :: "('a \<Rightarrow> 'b) \<Rightarrow> 'a tensor2 \<Rightarrow> 'b tensor2" where
  "map_tensor f t = \<lparr>ncols = ncols t, rows = map (map f) (rows t)\<rparr>"

text \<open>The cell-wise product of two tensors of one shape.\<close>

definition mul_tensor :: "int tensor2 \<Rightarrow> int tensor2 \<Rightarrow> int tensor2" where
  "mul_tensor a b = \<lparr>ncols = ncols a, rows = map2 (map2 (*)) (rows a) (rows b)\<rparr>"

text \<open>\<^verbatim>\<open>t.sum(dim=1)\<close>: one sum per row.\<close>

definition sum_dim1 :: "int tensor2 \<Rightarrow> int list" where
  "sum_dim1 t = map sum_list (rows t)"

text \<open>\<^verbatim>\<open>torch.cumsum(t, dim=1)\<close>: the running sum along each row.\<close>

fun cumsum_from :: "int \<Rightarrow> int list \<Rightarrow> int list" where
  "cumsum_from acc [] = []"
| "cumsum_from acc (x # xs) = (acc + x) # cumsum_from (acc + x) xs"

definition cumsum_dim1 :: "int tensor2 \<Rightarrow> int tensor2" where
  "cumsum_dim1 t = \<lparr>ncols = ncols t, rows = map (cumsum_from 0) (rows t)\<rparr>"

text \<open>
  A slice bound of Python: a negative bound counts from the end, and every bound is
  clamped to the width (\<open>nat\<close> of a negative number is 0).
\<close>

definition slice_bound :: "int \<Rightarrow> nat \<Rightarrow> nat" where
  "slice_bound i n = (if i < 0 then nat (int n + i) else min (nat i) n)"

text \<open>\<^verbatim>\<open>t[:, i:]\<close> and \<^verbatim>\<open>t[:, :i]\<close>.\<close>

definition slice_from :: "int \<Rightarrow> 'a tensor2 \<Rightarrow> 'a tensor2" where
  "slice_from i t =
     (let k = slice_bound i (ncols t)
      in \<lparr>ncols = ncols t - k, rows = map (drop k) (rows t)\<rparr>)"

definition slice_upto :: "int \<Rightarrow> 'a tensor2 \<Rightarrow> 'a tensor2" where
  "slice_upto i t =
     (let k = slice_bound i (ncols t)
      in \<lparr>ncols = k, rows = map (take k) (rows t)\<rparr>)"

text \<open>
  \<^verbatim>\<open>t.argsort(dim=1, stable=True)\<close>: for each row the column indices, sorted by the
  cell they point to, equal cells keeping their order. \<open>sort_key\<close> is a stable sort.
\<close>

definition argsort_row :: "int list \<Rightarrow> nat list" where
  "argsort_row ks = sort_key (\<lambda>j. ks ! j) [0..<length ks]"

definition argsort_stable :: "int tensor2 \<Rightarrow> nat tensor2" where
  "argsort_stable t = \<lparr>ncols = ncols t, rows = map argsort_row (rows t)\<rparr>"

text \<open>
  \<^verbatim>\<open>t.gather(1, index)\<close>: cell \<open>(i, j)\<close> of the result is cell \<open>(i, index[i][j])\<close> of
  \<open>t\<close>; the result has the shape of the index. torch raises when an index is out of
  range or the index has more rows than \<open>t\<close>.
\<close>

definition gather_row :: "'a list \<Rightarrow> nat list \<Rightarrow> py_error + 'a list" where
  "gather_row r p =
     (if list_all (\<lambda>j. j < length r) p then Inr (map (\<lambda>j. r ! j) p) else Inl RuntimeError)"

fun gather_rows :: "'a list list \<Rightarrow> nat list list \<Rightarrow> py_error + 'a list list" where
  "gather_rows rs [] = Inr []"
| "gather_rows [] (p # ps) = Inl RuntimeError"
| "gather_rows (r # rs) (p # ps) =
     (case gather_row r p of
        Inl e \<Rightarrow> Inl e
      | Inr x \<Rightarrow> (case gather_rows rs ps of Inl e \<Rightarrow> Inl e | Inr xs \<Rightarrow> Inr (x # xs)))"

definition gather_dim1 :: "'a tensor2 \<Rightarrow> nat tensor2 \<Rightarrow> py_error + 'a tensor2" where
  "gather_dim1 t index =
     (case gather_rows (rows t) (rows index) of
        Inl e \<Rightarrow> Inl e
      | Inr rs \<Rightarrow> Inr \<lparr>ncols = ncols index, rows = rs\<rparr>)"

text \<open>
  \<^verbatim>\<open>torch.cat(tensors, dim=1)\<close>: the rows of the tensors joined one after the other.
  torch raises on the empty list and when the tensors differ in their number of rows.
\<close>

fun cat_dim1 :: "'a tensor2 list \<Rightarrow> py_error + 'a tensor2" where
  "cat_dim1 [] = Inl RuntimeError"
| "cat_dim1 [t] = Inr t"
| "cat_dim1 (t # ts) =
     (case cat_dim1 ts of
        Inl e \<Rightarrow> Inl e
      | Inr u \<Rightarrow>
          if nrows t = nrows u
          then Inr \<lparr>ncols = ncols t + ncols u, rows = map2 (@) (rows t) (rows u)\<rparr>
          else Inl RuntimeError)"

text \<open>\<^verbatim>\<open>active_mask.sum()\<close> of a boolean mask: the number of its true entries.\<close>

definition count_true :: "bool list \<Rightarrow> nat" where
  "count_true active_mask = length (filter (\<lambda>b. b) active_mask)"

text \<open>
  \<^verbatim>\<open>dst[mask] = src\<close> with a 1-D boolean mask over the rows of \<open>dst\<close>: the rows of
  \<open>src\<close> go, in order, to the rows of \<open>dst\<close> where the mask is true. The source reaches
  this assignment only behind its assertion, with as many source rows as true entries and
  a destination built to the width of the source; any other shape is a
  \<^verbatim>\<open>RuntimeError\<close> here.
\<close>

fun scatter_rows :: "'a list list \<Rightarrow> bool list \<Rightarrow> 'a list list \<Rightarrow> 'a list list" where
  "scatter_rows (d # ds) (m # ms) (s # ss) =
     (if m then s # scatter_rows ds ms ss else d # scatter_rows ds ms (s # ss))"
| "scatter_rows ds ms ss = ds"

definition masked_assign :: "'a tensor2 \<Rightarrow> bool list \<Rightarrow> 'a tensor2 \<Rightarrow> py_error + 'a tensor2" where
  "masked_assign dst active_mask src =
     (if length active_mask = nrows dst \<and> count_true active_mask = nrows src
         \<and> ncols src = ncols dst
      then Inr \<lparr>ncols = ncols dst, rows = scatter_rows (rows dst) active_mask (rows src)\<rparr>
      else Inl RuntimeError)"

section \<open>The operations of \<^verbatim>\<open>TensorHelper\<close>\<close>

subsection \<open>Effective length trimmer\<close>

text \<open>
  \<^verbatim>\<open>effective_len = tensor_dict['attention_mask'].sum(dim=1).max()\<close>: a missing key is
  a \<^verbatim>\<open>KeyError\<close>, a mask with no rows makes \<^verbatim>\<open>max\<close> raise.
\<close>

definition effective_len :: "(string \<rightharpoonup> int tensor2) \<Rightarrow> py_error + int" where
  "effective_len tensor_dict =
     (case tensor_dict ''attention_mask'' of
        None \<Rightarrow> Inl KeyError
      | Some m \<Rightarrow> tensor_max (sum_dim1 m))"

text \<open>
  The loop over \<^verbatim>\<open>keys\<close>. Each slice reads the original dictionary and writes the
  copy. With \<^verbatim>\<open>cut_left\<close> the slice is \<^verbatim>\<open>[:, -effective_len:]\<close>, whose lower bound
  is the negated length, and otherwise \<^verbatim>\<open>[:, :effective_len]\<close>.
\<close>

fun cut_keys ::
  "(string \<rightharpoonup> int tensor2) \<Rightarrow> bool \<Rightarrow> int \<Rightarrow> string list \<Rightarrow> (string \<rightharpoonup> int tensor2)
     \<Rightarrow> py_error + (string \<rightharpoonup> int tensor2)" where
  "cut_keys tensor_dict cut_left e [] result = Inr result"
| "cut_keys tensor_dict cut_left e (key # keys) result =
     (case tensor_dict key of
        None \<Rightarrow> Inl KeyError
      | Some t \<Rightarrow>
          cut_keys tensor_dict cut_left e keys
            (result(key \<mapsto> (if cut_left then slice_from (- e) t else slice_upto e t))))"

definition cut_to_effective_len ::
  "(string \<rightharpoonup> int tensor2) \<Rightarrow> string list \<Rightarrow> bool \<Rightarrow> py_error + (string \<rightharpoonup> int tensor2)" where
  "cut_to_effective_len tensor_dict keys cut_left =
     (case effective_len tensor_dict of
        Inl err \<Rightarrow> Inl err
      | Inr e \<Rightarrow> cut_keys tensor_dict cut_left e keys tensor_dict)"

subsection \<open>Pad-side converter\<close>

text \<open>
  The mask marks the real tokens when padding goes to the left and the pad tokens
  otherwise; cast to int64 it is the sort key, so the cells with key 0 come first.
\<close>

definition convert_pad_structure ::
  "TensorConfig \<Rightarrow> int tensor2 \<Rightarrow> bool \<Rightarrow> py_error + (int tensor2 \<times> nat tensor2)" where
  "convert_pad_structure cfg tensor pad_to_left =
     (let mask = (if pad_to_left
                  then map_tensor (\<lambda>x. x \<noteq> pad_token_id cfg) tensor
                  else map_tensor (\<lambda>x. x = pad_token_id cfg) tensor);
          sorted_indices = argsort_stable (map_tensor of_bool mask)
      in case gather_dim1 tensor sorted_indices of
           Inl e \<Rightarrow> Inl e
         | Inr g \<Rightarrow> Inr (g, sorted_indices))"

subsection \<open>Mask and position deriver\<close>

definition create_attention_mask :: "TensorConfig \<Rightarrow> int tensor2 \<Rightarrow> int tensor2" where
  "create_attention_mask cfg input_ids =
     map_tensor (\<lambda>x. if x \<noteq> pad_token_id cfg then 1 else 0) input_ids"

definition create_position_ids :: "int tensor2 \<Rightarrow> int tensor2" where
  "create_position_ids attention_mask =
     mul_tensor (map_tensor (\<lambda>c. c - 1) (cumsum_dim1 attention_mask)) attention_mask"

subsection \<open>Concatenator\<close>

definition concatenate_with_padding ::
  "TensorConfig \<Rightarrow> int tensor2 list \<Rightarrow> bool \<Rightarrow> py_error + int tensor2" where
  "concatenate_with_padding cfg tensors pad_to_left =
     (case cat_dim1 tensors of
        Inl e \<Rightarrow> Inl e
      | Inr concatenated \<Rightarrow>
          (case convert_pad_structure cfg concatenated pad_to_left of
             Inl e \<Rightarrow> Inl e
           | Inr (padded_tensor, _) \<Rightarrow> Inr padded_tensor))"

subsection \<open>Active-example scatterer\<close>

text \<open>
  The loop that fills the strings: \<open>i\<close> is the position in the mask, \<open>s\<close> the next
  string to consume. \<^verbatim>\<open>responses_str[s]\<close> raises \<^verbatim>\<open>IndexError\<close> when the list has no
  entry \<open>s\<close>; position \<open>i\<close> is always inside \<^verbatim>\<open>padded_responses_str\<close>.
\<close>

fun fill_responses_str ::
  "string list \<Rightarrow> nat \<Rightarrow> bool list \<Rightarrow> string list \<Rightarrow> nat \<Rightarrow> py_error + string list" where
  "fill_responses_str responses_str i [] padded_responses_str s = Inr padded_responses_str"
| "fill_responses_str responses_str i (is_active # rest) padded_responses_str s =
     (if is_active
      then (if s < length responses_str
            then fill_responses_str responses_str (Suc i) rest
                   (padded_responses_str[i := responses_str ! s]) (Suc s)
            else Inl IndexError)
      else fill_responses_str responses_str (Suc i) rest padded_responses_str s)"

text \<open>\<^verbatim>\<open>_example_level_pad\<close> (an Isabelle name cannot start with an underscore).\<close>

definition example_level_pad ::
  "TensorConfig \<Rightarrow> int tensor2 \<Rightarrow> string list \<Rightarrow> bool list
     \<Rightarrow> py_error + (int tensor2 \<times> string list)" where
  "example_level_pad cfg responses responses_str active_mask =
     (if count_true active_mask \<noteq> nrows responses then Inl AssertionError
      else
        let batch_size = length active_mask;
            seq_len = ncols responses
        in case masked_assign (full batch_size seq_len (pad_token_id cfg)) active_mask responses of
             Inl e \<Rightarrow> Inl e
           | Inr padded_responses \<Rightarrow>
               (case fill_responses_str responses_str 0 active_mask
                       (replicate batch_size []) 0 of
                  Inl e \<Rightarrow> Inl e
                | Inr padded_responses_str \<Rightarrow> Inr (padded_responses, padded_responses_str)))"

text \<open>
  \<^verbatim>\<open>_example_level_pad_tensor\<close>, for any cell type; the pad value is the caller's (the
  source defaults it to \<^verbatim>\<open>0.0\<close>).
\<close>

definition example_level_pad_tensor ::
  "'a tensor2 \<Rightarrow> bool list \<Rightarrow> 'a \<Rightarrow> py_error + 'a tensor2" where
  "example_level_pad_tensor x active_mask pad_value =
     (if count_true active_mask \<noteq> nrows x then Inl AssertionError
      else
        let batch_size = length active_mask;
            seq_len = ncols x
        in masked_assign (full batch_size seq_len pad_value) active_mask x)"

subsection \<open>Ragged stacker\<close>

text \<open>
  \<^verbatim>\<open>pad_and_stack(tensor_list, pad_to_left=True, pad_value=None)\<close>: the optional
  pad value is an \<open>option\<close>; \<^verbatim>\<open>torch.full((k,), v)\<close> is \<open>replicate k v\<close>,
  \<^verbatim>\<open>torch.cat\<close> of two 1-D tensors is \<open>@\<close>, and \<^verbatim>\<open>torch.stack\<close> of rows of one
  length is the tensor of these rows.
\<close>

definition pad_and_stack ::
  "TensorConfig \<Rightarrow> int list list \<Rightarrow> bool \<Rightarrow> int option \<Rightarrow> py_error + int tensor2" where
  "pad_and_stack cfg tensor_list pad_to_left pad_value =
     (case py_max (map length tensor_list) of
        Inl e \<Rightarrow> Inl e
      | Inr max_length \<Rightarrow>
          let pv = (case pad_value of None \<Rightarrow> pad_token_id cfg | Some v \<Rightarrow> v);
              padded_tensors =
                (if pad_to_left
                 then map (\<lambda>t. replicate (max_length - length t) pv @ t) tensor_list
                 else map (\<lambda>t. t @ replicate (max_length - length t) pv) tensor_list)
          in Inr \<lparr>ncols = max_length, rows = padded_tensors\<rparr>)"

section \<open>Notions used to state the properties\<close>

text \<open>
  The real tokens of a row, in their order, and the run of pad tokens that a converted
  row carries: as many pad tokens as the row has.
\<close>

abbreviation real_tokens :: "int \<Rightarrow> int list \<Rightarrow> int list" where
  "real_tokens pad r \<equiv> filter (\<lambda>x. x \<noteq> pad) r"

abbreviation pad_run :: "int \<Rightarrow> int list \<Rightarrow> int list" where
  "pad_run pad r \<equiv> replicate (count_list r pad) pad"

text \<open>
  Following the specification's words for the trimmer: a tensor cut to its last \<open>n\<close>
  columns, and to its first \<open>n\<close> columns. They are compared with the slices the source
  takes.
\<close>

definition keep_last_columns :: "nat \<Rightarrow> 'a tensor2 \<Rightarrow> 'a tensor2" where
  "keep_last_columns n t = \<lparr>ncols = n, rows = map (\<lambda>r. drop (length r - n) r) (rows t)\<rparr>"

definition keep_first_columns :: "nat \<Rightarrow> 'a tensor2 \<Rightarrow> 'a tensor2" where
  "keep_first_columns n t = \<lparr>ncols = n, rows = map (take n) (rows t)\<rparr>"

text \<open>The entry of a returned dictionary at a key, for reading a result.\<close>

definition result_at ::
  "py_error + (string \<rightharpoonup> int tensor2) \<Rightarrow> string \<Rightarrow> py_error + int tensor2 option" where
  "result_at res key = (case res of Inl e \<Rightarrow> Inl e | Inr d \<Rightarrow> Inr (d key))"

section \<open>Concrete inputs\<close>

text \<open>A configuration with pad token 0, used where a property is evaluated.\<close>

definition example_config :: TensorConfig where
  "example_config =
     \<lparr>pad_token_id = 0, max_prompt_length = 8, max_obs_length = 8, max_start_length = 8\<rparr>"

text \<open>
  Batches in which every row is fully padded, with their attention masks: one with the
  mask written out, one with the mask derived from the token ids.
\<close>

definition all_pad_dict :: "string \<rightharpoonup> int tensor2" where
  "all_pad_dict =
     [''attention_mask'' \<mapsto> \<lparr>ncols = 2, rows = [[0, 0], [0, 0]]\<rparr>,
      ''input_ids'' \<mapsto> \<lparr>ncols = 2, rows = [[0, 0], [0, 0]]\<rparr>]"

definition all_pad_batch :: "int tensor2" where
  "all_pad_batch = \<lparr>ncols = 3, rows = [[0, 0, 0], [0, 0, 0]]\<rparr>"

definition all_pad_batch_dict :: "string \<rightharpoonup> int tensor2" where
  "all_pad_batch_dict =
     [''input_ids'' \<mapsto> all_pad_batch,
      ''attention_mask'' \<mapsto> create_attention_mask example_config all_pad_batch]"

section \<open>Facts about the library primitives\<close>

lemma fold_max_eq_Max: "fold max xs (x::'a::linorder) = Max (set (x # xs))"
proof (induction xs arbitrary: x)
  case Nil
  show ?case by simp
next
  case (Cons y ys)
  have "fold max (y # ys) x = Max (set (max y x # ys))"
    using Cons.IH [of "max y x"] by simp
  also have "\<dots> = Max (insert (max y x) (set ys))"
    by simp
  also have "\<dots> = Max (set (x # y # ys))"
  proof (cases "ys = []")
    case True
    then show ?thesis by (simp add: max.commute)
  next
    case False
    then show ?thesis by (simp add: max.commute max.left_commute max.assoc)
  qed
  finally show ?case .
qed

lemma py_max_nonempty: "xs \<noteq> [] \<Longrightarrow> py_max xs = Inr (Max (set xs))"
  by (cases xs) (simp_all only: py_max.simps fold_max_eq_Max, simp)

lemma tensor_max_nonempty: "xs \<noteq> [] \<Longrightarrow> tensor_max xs = Inr (Max (set xs))"
  by (cases xs) (simp_all only: tensor_max.simps fold_max_eq_Max, simp)

section \<open>Pad-side converter: properties\<close>

lemma insort_key_past:
  "\<forall>a \<in> set as. \<not> f x \<le> f a \<Longrightarrow> insort_key f x (as @ bs) = as @ insort_key f x bs"
  by (induction as) simp_all

lemma sort_key_two_classes:
  fixes f :: "'a \<Rightarrow> int"
  assumes "\<forall>x \<in> set xs. f x = of_bool (P x)"
  shows "sort_key f xs = filter (\<lambda>x. \<not> P x) xs @ filter P xs"
  using assms
proof (induction xs)
  case Nil
  show ?case by simp
next
  case (Cons x xs)
  let ?A = "filter (\<lambda>x. \<not> P x) xs" and ?B = "filter P xs"
  have ih: "sort_key f xs = ?A @ ?B" using Cons by simp
  have fx: "f x = of_bool (P x)" using Cons.prems by simp
  have keys: "\<forall>y \<in> set xs. f y = of_bool (P y)" using Cons.prems by simp
  show ?case
  proof (cases "P x")
    case True
    have "insort_key f x (?A @ ?B) = ?A @ insort_key f x ?B"
      by (rule insort_key_past) (simp add: fx True keys)
    also have "insort_key f x ?B = x # ?B"
      by (rule insort_is_Cons) (simp add: fx True keys)
    finally show ?thesis using True by (simp add: ih)
  next
    case False
    have "insort_key f x (?A @ ?B) = x # ?A @ ?B"
      by (rule insort_is_Cons) (auto simp add: fx False keys)
    then show ?thesis using False by (simp add: ih)
  qed
qed

lemma argsort_row_of_bool:
  "argsort_row (map (\<lambda>x. of_bool (P x)) r)
     = filter (\<lambda>j. \<not> P (r ! j)) [0..<length r] @ filter (\<lambda>j. P (r ! j)) [0..<length r]"
  unfolding argsort_row_def
  by (simp add: sort_key_two_classes [where P = "\<lambda>j. P (r ! j)"])

lemma map_nth_filter_upt:
  "map (\<lambda>j. r ! j) (filter (\<lambda>j. Q (r ! j)) [0..<length r]) = filter Q r"
proof -
  have "filter Q (map (\<lambda>j. r ! j) [0..<length r]) = filter Q r"
    by (simp add: map_nth)
  then show ?thesis by (simp add: filter_map comp_def)
qed

lemma gather_row_argsort:
  "gather_row r (argsort_row (map (\<lambda>x. of_bool (P x)) r))
     = Inr (filter (\<lambda>x. \<not> P x) r @ filter P r)"
proof -
  have "list_all (\<lambda>j. j < length r) (argsort_row (map (\<lambda>x. of_bool (P x)) r))"
    by (auto simp add: argsort_row_of_bool list_all_iff)
  then show ?thesis
    by (simp add: gather_row_def)
      (simp add: argsort_row_of_bool map_nth_filter_upt [where Q = P]
        map_nth_filter_upt [where Q = "\<lambda>x. \<not> P x"])
qed

lemma gather_rows_map:
  assumes "\<And>r. r \<in> set rs \<Longrightarrow> gather_row r (g r) = Inr (h r)"
  shows "gather_rows rs (map g rs) = Inr (map h rs)"
  using assms by (induction rs) simp_all

lemma filter_eq_pad_run: "filter (\<lambda>x. x = pad) r = replicate (count_list r pad) pad"
  by (induction r) simp_all

lemma gather_argsort_eq:
  "gather_dim1 t (argsort_stable (map_tensor of_bool (map_tensor P t)))
     = Inr \<lparr>ncols = ncols t, rows = map (\<lambda>r. filter (\<lambda>x. \<not> P x) r @ filter P r) (rows t)\<rparr>"
proof -
  have "gather_rows (rows t) (map (\<lambda>r. argsort_row (map (\<lambda>x. of_bool (P x)) r)) (rows t))
        = Inr (map (\<lambda>r. filter (\<lambda>x. \<not> P x) r @ filter P r) (rows t))"
    by (rule gather_rows_map) (rule gather_row_argsort)
  then show ?thesis
    by (simp add: gather_dim1_def argsort_stable_def map_tensor_def comp_def)
qed

lemma gather_sorted_indices:
  "gather_dim1 t (argsort_stable (map_tensor of_bool
       (if pad_to_left then map_tensor (\<lambda>x. x \<noteq> pad) t else map_tensor (\<lambda>x. x = pad) t)))
     = Inr \<lparr>ncols = ncols t,
            rows = map (\<lambda>r. if pad_to_left then pad_run pad r @ real_tokens pad r
                            else real_tokens pad r @ pad_run pad r) (rows t)\<rparr>"
  by (cases pad_to_left) (simp_all add: gather_argsort_eq filter_eq_pad_run)

lemma convert_pad_structure_eq:
  "convert_pad_structure cfg t pad_to_left =
     Inr (\<lparr>ncols = ncols t,
           rows = map (\<lambda>r. if pad_to_left
                           then pad_run (pad_token_id cfg) r @ real_tokens (pad_token_id cfg) r
                           else real_tokens (pad_token_id cfg) r @ pad_run (pad_token_id cfg) r)
                      (rows t)\<rparr>,
          argsort_stable (map_tensor of_bool
            (if pad_to_left then map_tensor (\<lambda>x. x \<noteq> pad_token_id cfg) t
             else map_tensor (\<lambda>x. x = pad_token_id cfg) t)))"
  unfolding convert_pad_structure_def Let_def
  by (simp only: gather_sorted_indices sum.case)

lemma gather_row_Inr: "gather_row r p = Inr x \<Longrightarrow> x = map (\<lambda>j. r ! j) p"
  by (simp add: gather_row_def split: if_splits)

lemma mset_argsort_row: "mset (argsort_row ks) = mset [0..<length ks]"
  by (simp add: argsort_row_def)

lemma mset_pad_run_real_tokens:
  "mset (pad_run pad r) + mset (real_tokens pad r) = mset r"
proof -
  have "mset (filter (\<lambda>x. x = pad) r) + mset (filter (\<lambda>x. \<not> x = pad) r) = mset r"
    by (simp only: mset_filter multiset_partition [symmetric])
  then show ?thesis by (simp only: filter_eq_pad_run)
qed

lemma real_tokens_replicate_pad [simp]: "real_tokens pad (replicate k pad) = []"
  by (induction k) simp_all

lemma count_list_real_tokens [simp]: "count_list (real_tokens pad r) pad = 0"
  by (induction r) simp_all

lemma count_list_replicate_pad [simp]: "count_list (replicate k pad) pad = k"
  by (induction k) simp_all

text \<open>
  C2. On any token batch the converter returns; the output and the indices have the shape
  of the input, and the output is the input gathered along dimension 1 by the indices. In
  every row all pad tokens are on the requested side (left when \<open>pad_to_left\<close>, right
  otherwise) and the real tokens follow in the order of the input row; the indices of a
  row are a permutation of its column numbers, so the output row is a permutation of the
  input row: nothing is dropped or duplicated.
\<close>

theorem convert_pad_structure_correct:
  "\<exists>out idx. convert_pad_structure cfg t pad_to_left = Inr (out, idx)
     \<and> ncols out = ncols t \<and> nrows out = nrows t
     \<and> ncols idx = ncols t \<and> nrows idx = nrows t
     \<and> gather_dim1 t idx = Inr out
     \<and> (\<forall>i < nrows t.
          rows out ! i =
            (if pad_to_left
             then pad_run (pad_token_id cfg) (rows t ! i) @ real_tokens (pad_token_id cfg) (rows t ! i)
             else real_tokens (pad_token_id cfg) (rows t ! i) @ pad_run (pad_token_id cfg) (rows t ! i))
        \<and> real_tokens (pad_token_id cfg) (rows out ! i) = real_tokens (pad_token_id cfg) (rows t ! i)
        \<and> mset (rows idx ! i) = mset [0..<length (rows t ! i)]
        \<and> rows out ! i = map (\<lambda>j. rows t ! i ! j) (rows idx ! i)
        \<and> mset (rows out ! i) = mset (rows t ! i))"
proof -
  let ?pad = "pad_token_id cfg"
  let ?out = "\<lparr>ncols = ncols t,
           rows = map (\<lambda>r. if pad_to_left then pad_run ?pad r @ real_tokens ?pad r
                           else real_tokens ?pad r @ pad_run ?pad r) (rows t)\<rparr>"
  let ?key = "\<lambda>x. if pad_to_left then x \<noteq> ?pad else x = ?pad"
  let ?idx = "argsort_stable (map_tensor of_bool
            (if pad_to_left then map_tensor (\<lambda>x. x \<noteq> ?pad) t
             else map_tensor (\<lambda>x. x = ?pad) t))"
  have eq: "convert_pad_structure cfg t pad_to_left = Inr (?out, ?idx)"
    by (rule convert_pad_structure_eq)
  have idx_rows: "rows ?idx = map (\<lambda>r. argsort_row (map (\<lambda>x. of_bool (?key x)) r)) (rows t)"
    by (simp add: argsort_stable_def map_tensor_def comp_def)
  have shape: "ncols ?out = ncols t" "nrows ?out = nrows t" "ncols ?idx = ncols t"
    "nrows ?idx = nrows t"
    by (simp_all add: nrows_def argsort_stable_def map_tensor_def)
  have gath: "gather_dim1 t ?idx = Inr ?out"
    by (rule gather_sorted_indices)
  have row: "rows ?out ! i =
            (if pad_to_left then pad_run ?pad (rows t ! i) @ real_tokens ?pad (rows t ! i)
             else real_tokens ?pad (rows t ! i) @ pad_run ?pad (rows t ! i))
        \<and> real_tokens ?pad (rows ?out ! i) = real_tokens ?pad (rows t ! i)
        \<and> mset (rows ?idx ! i) = mset [0..<length (rows t ! i)]
        \<and> rows ?out ! i = map (\<lambda>j. rows t ! i ! j) (rows ?idx ! i)
        \<and> mset (rows ?out ! i) = mset (rows t ! i)" if i: "i < nrows t" for i
  proof -
    let ?r = "rows t ! i"
    have i': "i < length (rows t)" using i by (simp add: nrows_def)
    have o: "rows ?out ! i = (if pad_to_left then pad_run ?pad ?r @ real_tokens ?pad ?r
             else real_tokens ?pad ?r @ pad_run ?pad ?r)"
      using i' by simp
    have p: "rows ?idx ! i = argsort_row (map (\<lambda>x. of_bool (?key x)) ?r)"
      using i' by (simp add: idx_rows)
    have g: "gather_row ?r (rows ?idx ! i) = Inr (rows ?out ! i)"
      unfolding p o
      by (simp only: gather_row_argsort) (simp add: filter_eq_pad_run)
    have m: "mset (rows ?out ! i) = mset ?r"
      unfolding o using mset_pad_run_real_tokens [where pad = "?pad" and r = "?r"] by (simp add: add.commute)
    have rt: "real_tokens ?pad (rows ?out ! i) = real_tokens ?pad ?r"
      unfolding o by simp
    have ms: "mset (rows ?idx ! i) = mset [0..<length ?r]"
      unfolding p by (simp only: mset_argsort_row length_map)
    show ?thesis
      using o rt ms gather_row_Inr [OF g] m by blast
  qed
  show ?thesis
    using eq shape gath row by blast
qed

theorem convert_pad_structure_correct_witness:
  "convert_pad_structure example_config \<lparr>ncols = 5, rows = [[0, 1, 0, 2, 3], [4, 0, 0, 5, 0]]\<rparr> True
     = Inr (\<lparr>ncols = 5, rows = [[0, 0, 1, 2, 3], [0, 0, 0, 4, 5]]\<rparr>,
            \<lparr>ncols = 5, rows = [[0, 2, 1, 3, 4], [1, 2, 4, 0, 3]]\<rparr>)
   \<and> convert_pad_structure example_config \<lparr>ncols = 5, rows = [[0, 1, 0, 2, 3], [4, 0, 0, 5, 0]]\<rparr> False
     = Inr (\<lparr>ncols = 5, rows = [[1, 2, 3, 0, 0], [4, 5, 0, 0, 0]]\<rparr>,
            \<lparr>ncols = 5, rows = [[1, 3, 4, 0, 2], [0, 3, 1, 2, 4]]\<rparr>)"
proof -
  have ev: "convert_pad_structure example_config \<lparr>ncols = 5, rows = [[0, 1, 0, 2, 3], [4, 0, 0, 5, 0]]\<rparr> True
     = Inr (\<lparr>ncols = 5, rows = [[0, 0, 1, 2, 3], [0, 0, 0, 4, 5]]\<rparr>,
            \<lparr>ncols = 5, rows = [[0, 2, 1, 3, 4], [1, 2, 4, 0, 3]]\<rparr>)"
    "convert_pad_structure example_config \<lparr>ncols = 5, rows = [[0, 1, 0, 2, 3], [4, 0, 0, 5, 0]]\<rparr> False
     = Inr (\<lparr>ncols = 5, rows = [[1, 2, 3, 0, 0], [4, 5, 0, 0, 0]]\<rparr>,
            \<lparr>ncols = 5, rows = [[1, 3, 4, 0, 2], [0, 3, 1, 2, 4]]\<rparr>)"
    by code_simp+
  show ?thesis
    using convert_pad_structure_correct
      [of example_config "\<lparr>ncols = 5, rows = [[0, 1, 0, 2, 3], [4, 0, 0, 5, 0]]\<rparr>" True] ev
    by simp
qed

lemma count_list_append_pad:
  "count_list (xs @ ys) pad = count_list xs pad + count_list ys pad"
  by (induction xs) simp_all

text \<open>
  C3. Converting any batch to left padding, then to right padding, then to left padding
  again returns every time, and the last batch keeps the shape of the input; in each row
  the real tokens are those of the input row in the same order and the row is a
  permutation of the input row. The last batch is the first left-padded one, and a row
  that was left-padded to begin with comes back unchanged.
\<close>

theorem pad_side_round_trip:
  "\<exists>a ia b ib c ic.
       convert_pad_structure cfg t True = Inr (a, ia)
     \<and> convert_pad_structure cfg a False = Inr (b, ib)
     \<and> convert_pad_structure cfg b True = Inr (c, ic)
     \<and> c = a \<and> nrows c = nrows t \<and> ncols c = ncols t
     \<and> (\<forall>i < nrows t.
           real_tokens (pad_token_id cfg) (rows c ! i) = real_tokens (pad_token_id cfg) (rows t ! i)
         \<and> mset (rows c ! i) = mset (rows t ! i)
         \<and> (rows t ! i = pad_run (pad_token_id cfg) (rows t ! i) @ real_tokens (pad_token_id cfg) (rows t ! i)
              \<longrightarrow> rows c ! i = rows t ! i))"
proof -
  let ?pad = "pad_token_id cfg"
  let ?L = "\<lambda>r. pad_run ?pad r @ real_tokens ?pad r"
  let ?R = "\<lambda>r. real_tokens ?pad r @ pad_run ?pad r"
  let ?a = "\<lparr>ncols = ncols t, rows = map ?L (rows t)\<rparr>"
  let ?b = "\<lparr>ncols = ncols t, rows = map ?R (rows t)\<rparr>"
  obtain ia where a: "convert_pad_structure cfg t True = Inr (?a, ia)"
    using convert_pad_structure_eq [of cfg t True] by simp
  obtain ib where b: "convert_pad_structure cfg ?a False = Inr (?b, ib)"
    using convert_pad_structure_eq [of cfg ?a False] by (simp add: comp_def count_list_append_pad)
  obtain ic where c: "convert_pad_structure cfg ?b True = Inr (?a, ic)"
    using convert_pad_structure_eq [of cfg ?b True] by (simp add: comp_def count_list_append_pad)
  have row: "real_tokens ?pad (rows ?a ! i) = real_tokens ?pad (rows t ! i)
         \<and> mset (rows ?a ! i) = mset (rows t ! i)
         \<and> (rows t ! i = ?L (rows t ! i) \<longrightarrow> rows ?a ! i = rows t ! i)"
    if "i < nrows t" for i
  proof -
    have i': "i < length (rows t)" using that by (simp add: nrows_def)
    have o: "rows ?a ! i = ?L (rows t ! i)" using i' by simp
    have m: "mset (?L (rows t ! i)) = mset (rows t ! i)"
      using mset_pad_run_real_tokens [where pad = "?pad" and r = "rows t ! i"] by simp
    show ?thesis unfolding o using m by simp
  qed
  have shape: "nrows ?a = nrows t" "ncols ?a = ncols t"
    by (simp_all add: nrows_def)
  show ?thesis
    using a b c shape row by blast
qed

theorem pad_side_round_trip_witness:
  "convert_pad_structure example_config \<lparr>ncols = 4, rows = [[1, 0, 2, 0], [0, 0, 3, 4]]\<rparr> True
     = Inr (\<lparr>ncols = 4, rows = [[0, 0, 1, 2], [0, 0, 3, 4]]\<rparr>,
            \<lparr>ncols = 4, rows = [[1, 3, 0, 2], [0, 1, 2, 3]]\<rparr>)
   \<and> convert_pad_structure example_config \<lparr>ncols = 4, rows = [[0, 0, 1, 2], [0, 0, 3, 4]]\<rparr> False
     = Inr (\<lparr>ncols = 4, rows = [[1, 2, 0, 0], [3, 4, 0, 0]]\<rparr>,
            \<lparr>ncols = 4, rows = [[2, 3, 0, 1], [2, 3, 0, 1]]\<rparr>)
   \<and> convert_pad_structure example_config \<lparr>ncols = 4, rows = [[1, 2, 0, 0], [3, 4, 0, 0]]\<rparr> True
     = Inr (\<lparr>ncols = 4, rows = [[0, 0, 1, 2], [0, 0, 3, 4]]\<rparr>,
            \<lparr>ncols = 4, rows = [[2, 3, 0, 1], [2, 3, 0, 1]]\<rparr>)"
proof -
  have ev: "convert_pad_structure example_config \<lparr>ncols = 4, rows = [[1, 0, 2, 0], [0, 0, 3, 4]]\<rparr> True
     = Inr (\<lparr>ncols = 4, rows = [[0, 0, 1, 2], [0, 0, 3, 4]]\<rparr>,
            \<lparr>ncols = 4, rows = [[1, 3, 0, 2], [0, 1, 2, 3]]\<rparr>)"
    "convert_pad_structure example_config \<lparr>ncols = 4, rows = [[0, 0, 1, 2], [0, 0, 3, 4]]\<rparr> False
     = Inr (\<lparr>ncols = 4, rows = [[1, 2, 0, 0], [3, 4, 0, 0]]\<rparr>,
            \<lparr>ncols = 4, rows = [[2, 3, 0, 1], [2, 3, 0, 1]]\<rparr>)"
    "convert_pad_structure example_config \<lparr>ncols = 4, rows = [[1, 2, 0, 0], [3, 4, 0, 0]]\<rparr> True
     = Inr (\<lparr>ncols = 4, rows = [[0, 0, 1, 2], [0, 0, 3, 4]]\<rparr>,
            \<lparr>ncols = 4, rows = [[2, 3, 0, 1], [2, 3, 0, 1]]\<rparr>)"
    by code_simp+
  show ?thesis
    using pad_side_round_trip
      [of example_config "\<lparr>ncols = 4, rows = [[1, 0, 2, 0], [0, 0, 3, 4]]\<rparr>"] ev
    by simp
qed

section \<open>Mask and position deriver: properties\<close>

lemma length_cumsum_from [simp]: "length (cumsum_from acc xs) = length xs"
  by (induction xs arbitrary: acc) simp_all

lemma nth_cumsum_from:
  "j < length xs \<Longrightarrow> cumsum_from acc xs ! j = acc + sum_list (take (Suc j) xs)"
proof (induction xs arbitrary: acc j)
  case Nil
  then show ?case by simp
next
  case (Cons x xs)
  show ?case
  proof (cases j)
    case 0
    then show ?thesis by simp
  next
    case (Suc k)
    then have "k < length xs" using Cons.prems by simp
    then show ?thesis using Suc by (simp add: Cons.IH)
  qed
qed

lemma sum_list_mask_row:
  "sum_list (map (\<lambda>x. if x \<noteq> pad then 1 else 0) r) = int (length (real_tokens pad r))"
  by (induction r) simp_all

lemma position_row_nth:
  fixes r :: "int list" and pad :: int
  assumes j: "j < length r"
  shows "map2 (*) (map (\<lambda>c. c - 1) (cumsum_from 0 (map (\<lambda>x. if x \<noteq> pad then 1 else 0) r)))
            (map (\<lambda>x. if x \<noteq> pad then 1 else 0) r) ! j
     = (if r ! j \<noteq> pad then int (length (real_tokens pad (take j r))) else 0)"
proof -
  define f where "f = (\<lambda>x. if x \<noteq> pad then 1 else (0::int))"
  have "sum_list (take (Suc j) (map f r)) = sum_list (map f (take j r)) + f (r ! j)"
    using j by (simp add: take_Suc_conv_app_nth take_map [symmetric] del: take_map)
  also have "sum_list (map f (take j r)) = int (length (real_tokens pad (take j r)))"
    unfolding f_def by (rule sum_list_mask_row)
  finally have cs: "cumsum_from 0 (map f r) ! j
      = int (length (real_tokens pad (take j r))) + f (r ! j)"
    using j by (simp add: nth_cumsum_from)
  show ?thesis
    using j cs unfolding f_def by simp
qed

lemma rank_of_real_tokens:
  "map (\<lambda>j. int (length (filter P (take j r)))) (filter (\<lambda>j. P (r ! j)) [0..<length r])
     = map int [0..<length (filter P r)]"
proof (induction r rule: rev_induct)
  case Nil
  show ?case by simp
next
  case (snoc x xs)
  let ?G = "\<lambda>r j. int (length (filter P (take j r)))"
  let ?F = "\<lambda>r j. P (r ! j)"
  have f: "filter (?F (xs @ [x])) [0..<length xs] = filter (?F xs) [0..<length xs]"
    by (rule filter_cong) (simp_all add: nth_append)
  have m: "map (?G (xs @ [x])) (filter (?F xs) [0..<length xs])
      = map (?G xs) (filter (?F xs) [0..<length xs])"
    by (rule map_cong) simp_all
  have "filter (?F (xs @ [x])) [0..<length (xs @ [x])]
      = filter (?F xs) [0..<length xs] @ (if P x then [length xs] else [])"
    using f by simp
  then have "map (?G (xs @ [x])) (filter (?F (xs @ [x])) [0..<length (xs @ [x])])
      = map (?G (xs @ [x])) (filter (?F xs) [0..<length xs])
          @ (if P x then [int (length (filter P xs))] else [])"
    by simp
  also have "\<dots> = map int [0..<length (filter P xs)]
          @ (if P x then [int (length (filter P xs))] else [])"
    by (simp only: m snoc.IH)
  also have "\<dots> = map int [0..<length (filter P (xs @ [x]))]"
    by simp
  finally show ?case .
qed

text \<open>
  C4. For every token batch the attention mask and the position ids have the shape of the
  batch. The mask is 1 exactly at the cells that differ from \<open>pad_token_id\<close> and 0
  elsewhere. The position id of a non-pad cell is the number of non-pad cells to its left
  in the row (its zero-based rank), the position id of a pad cell is 0, and no position
  id is negative; read at the non-pad cells from left to right, the ids of a row with
  \<open>k\<close> real tokens are \<open>0, \<dots>, k - 1\<close>. Nothing here depends on where the padding
  sits in the row.
\<close>

theorem mask_and_position_ids_correct:
  "ncols (create_attention_mask cfg b) = ncols b
   \<and> nrows (create_attention_mask cfg b) = nrows b
   \<and> ncols (create_position_ids (create_attention_mask cfg b)) = ncols b
   \<and> nrows (create_position_ids (create_attention_mask cfg b)) = nrows b
   \<and> (\<forall>i < nrows b.
        length (rows (create_attention_mask cfg b) ! i) = length (rows b ! i)
      \<and> length (rows (create_position_ids (create_attention_mask cfg b)) ! i) = length (rows b ! i)
      \<and> (\<forall>j < length (rows b ! i).
            rows (create_attention_mask cfg b) ! i ! j
              = (if rows b ! i ! j \<noteq> pad_token_id cfg then 1 else 0)
          \<and> rows (create_position_ids (create_attention_mask cfg b)) ! i ! j
              = (if rows b ! i ! j \<noteq> pad_token_id cfg
                 then int (length (real_tokens (pad_token_id cfg) (take j (rows b ! i))))
                 else 0)
          \<and> 0 \<le> rows (create_position_ids (create_attention_mask cfg b)) ! i ! j)
      \<and> map (\<lambda>j. rows (create_position_ids (create_attention_mask cfg b)) ! i ! j)
            (filter (\<lambda>j. rows b ! i ! j \<noteq> pad_token_id cfg) [0..<length (rows b ! i)])
          = map int [0..<length (real_tokens (pad_token_id cfg) (rows b ! i))])"
proof -
  let ?pad = "pad_token_id cfg"
  let ?f = "\<lambda>x. if x \<noteq> ?pad then 1 else (0::int)"
  let ?m = "create_attention_mask cfg b"
  let ?p = "create_position_ids ?m"
  let ?pos = "\<lambda>r. map2 (*) (map (\<lambda>c. c - 1) (cumsum_from 0 (map ?f r))) (map ?f r)"
  have m_rows: "rows ?m = map (map ?f) (rows b)"
    by (simp add: create_attention_mask_def map_tensor_def)
  have p_rows: "rows ?p = map ?pos (rows b)"
    by (intro nth_equalityI)
      (simp_all add: create_position_ids_def create_attention_mask_def mul_tensor_def
        map_tensor_def cumsum_dim1_def)
  have shape: "ncols ?m = ncols b" "nrows ?m = nrows b" "ncols ?p = ncols b" "nrows ?p = nrows b"
    by (simp_all add: nrows_def p_rows m_rows)
      (simp_all add: create_position_ids_def create_attention_mask_def mul_tensor_def
        map_tensor_def cumsum_dim1_def)
  have row: "length (rows ?m ! i) = length (rows b ! i)
      \<and> length (rows ?p ! i) = length (rows b ! i)
      \<and> (\<forall>j < length (rows b ! i).
            rows ?m ! i ! j = ?f (rows b ! i ! j)
          \<and> rows ?p ! i ! j
              = (if rows b ! i ! j \<noteq> ?pad
                 then int (length (real_tokens ?pad (take j (rows b ! i)))) else 0)
          \<and> 0 \<le> rows ?p ! i ! j)
      \<and> map (\<lambda>j. rows ?p ! i ! j)
            (filter (\<lambda>j. rows b ! i ! j \<noteq> ?pad) [0..<length (rows b ! i)])
          = map int [0..<length (real_tokens ?pad (rows b ! i))]" if "i < nrows b" for i
  proof -
    let ?r = "rows b ! i"
    have i': "i < length (rows b)" using that by (simp add: nrows_def)
    have mi: "rows ?m ! i = map ?f ?r" using i' by (simp add: m_rows)
    have pi: "rows ?p ! i = ?pos ?r" using i' by (simp add: p_rows)
    have pj: "?pos ?r ! j = (if ?r ! j \<noteq> ?pad
                 then int (length (real_tokens ?pad (take j ?r))) else 0)"
      if "j < length ?r" for j
      using that by (rule position_row_nth)
    have "map (\<lambda>j. ?pos ?r ! j) (filter (\<lambda>j. ?r ! j \<noteq> ?pad) [0..<length ?r])
        = map (\<lambda>j. int (length (real_tokens ?pad (take j ?r))))
            (filter (\<lambda>j. ?r ! j \<noteq> ?pad) [0..<length ?r])"
    proof (rule map_cong)
      fix j
      assume "j \<in> set (filter (\<lambda>j. ?r ! j \<noteq> ?pad) [0..<length ?r])"
      then have "j < length ?r" by simp
      then show "?pos ?r ! j = int (length (real_tokens ?pad (take j ?r)))"
        using \<open>j \<in> set (filter (\<lambda>j. ?r ! j \<noteq> ?pad) [0..<length ?r])\<close>
        by (simp only: pj) simp
    qed simp
    also have "\<dots> = map int [0..<length (real_tokens ?pad ?r)]"
      by (rule rank_of_real_tokens [where P = "\<lambda>x. x \<noteq> ?pad"])
    finally have ranks: "map (\<lambda>j. ?pos ?r ! j) (filter (\<lambda>j. ?r ! j \<noteq> ?pad) [0..<length ?r])
        = map int [0..<length (real_tokens ?pad ?r)]" .
    have cells: "rows ?m ! i ! j = ?f (?r ! j)
          \<and> rows ?p ! i ! j = (if ?r ! j \<noteq> ?pad
                 then int (length (real_tokens ?pad (take j ?r))) else 0)
          \<and> 0 \<le> rows ?p ! i ! j" if "j < length ?r" for j
    proof -
      have c1: "rows ?m ! i ! j = ?f (?r ! j)"
        using that by (simp add: mi)
      have c2: "rows ?p ! i ! j = (if ?r ! j \<noteq> ?pad
                 then int (length (real_tokens ?pad (take j ?r))) else 0)"
        by (simp only: pi pj [OF that])
      have c3: "0 \<le> rows ?p ! i ! j"
        by (simp only: c2) simp
      show ?thesis using c1 c2 c3 by blast
    qed
    have lens: "length (rows ?m ! i) = length ?r" "length (rows ?p ! i) = length ?r"
      by (simp_all add: mi pi)
    have ranks': "map (\<lambda>j. rows ?p ! i ! j)
            (filter (\<lambda>j. ?r ! j \<noteq> ?pad) [0..<length ?r])
          = map int [0..<length (real_tokens ?pad ?r)]"
      using ranks by (simp only: pi)
    show ?thesis
      using cells ranks' lens by blast
  qed
  show ?thesis
    using shape row by blast
qed

theorem mask_and_position_ids_correct_witness:
  "create_attention_mask example_config \<lparr>ncols = 5, rows = [[0, 0, 7, 2, 3], [4, 9, 0, 0, 0]]\<rparr>
     = \<lparr>ncols = 5, rows = [[0, 0, 1, 1, 1], [1, 1, 0, 0, 0]]\<rparr>
   \<and> create_position_ids
       (create_attention_mask example_config \<lparr>ncols = 5, rows = [[0, 0, 7, 2, 3], [4, 9, 0, 0, 0]]\<rparr>)
     = \<lparr>ncols = 5, rows = [[0, 0, 0, 1, 2], [0, 1, 0, 0, 0]]\<rparr>"
proof -
  have ev: "create_attention_mask example_config \<lparr>ncols = 5, rows = [[0, 0, 7, 2, 3], [4, 9, 0, 0, 0]]\<rparr>
     = \<lparr>ncols = 5, rows = [[0, 0, 1, 1, 1], [1, 1, 0, 0, 0]]\<rparr>"
    "create_position_ids
       (create_attention_mask example_config \<lparr>ncols = 5, rows = [[0, 0, 7, 2, 3], [4, 9, 0, 0, 0]]\<rparr>)
     = \<lparr>ncols = 5, rows = [[0, 0, 0, 1, 2], [0, 1, 0, 0, 0]]\<rparr>"
    by code_simp+
  show ?thesis
    using mask_and_position_ids_correct
      [of example_config "\<lparr>ncols = 5, rows = [[0, 0, 7, 2, 3], [4, 9, 0, 0, 0]]\<rparr>"] ev
    by simp
qed

section \<open>Concatenator: properties\<close>

lemma cat_dim1_eq:
  assumes "ts \<noteq> []" and "\<forall>t \<in> set ts. nrows t = n"
  shows "cat_dim1 ts =
    Inr \<lparr>ncols = sum_list (map ncols ts),
         rows = map (\<lambda>i. concat (map (\<lambda>t. rows t ! i) ts)) [0..<n]\<rparr>"
  using assms
proof (induction ts rule: cat_dim1.induct)
  case 1
  then show ?case by simp
next
  case (2 t)
  then have "length (rows t) = n" by (simp add: nrows_def)
  then have "rows t = map (\<lambda>i. rows t ! i) [0..<n]"
    using map_nth [of "rows t"] by simp
  then have "t = \<lparr>ncols = ncols t, rows = map (\<lambda>i. rows t ! i) [0..<n]\<rparr>"
    by simp
  then show ?case by simp
next
  case (3 t u us)
  let ?rest = "\<lparr>ncols = sum_list (map ncols (u # us)),
         rows = map (\<lambda>i. concat (map (\<lambda>t. rows t ! i) (u # us))) [0..<n]\<rparr>"
  have ih: "cat_dim1 (u # us) = Inr ?rest"
    using 3 by simp
  have len: "length (rows t) = n" using 3 by (simp add: nrows_def)
  have "map2 (@) (rows t) (rows ?rest)
          = map (\<lambda>i. concat (map (\<lambda>t. rows t ! i) (t # u # us))) [0..<n]"
    using len by (intro nth_equalityI) simp_all
  then show ?case
    using len by (simp add: ih nrows_def)
qed

lemma length_pad_run_real_tokens:
  "count_list r pad + length (real_tokens pad r) = length r"
  by (induction r) simp_all

lemma length_concat_rows:
  assumes "\<forall>t \<in> set ts. wf_tensor t \<and> i < nrows t"
  shows "length (concat (map (\<lambda>t. rows t ! i) ts)) = sum_list (map ncols ts)"
  using assms
  by (induction ts) (simp_all add: wf_tensor_def nrows_def list_all_length)

text \<open>
  C6. For a non-empty list of well-formed batches with the same number of rows the
  concatenator returns a well-formed batch of as many rows whose width is the sum of the
  widths. Row \<open>i\<close> is the join of the fragments' rows \<open>i\<close> with the pad tokens moved
  to the requested side: with \<open>pad_to_left\<close> all pad tokens come first and the real
  tokens follow, in their left-to-right order across the joined fragments.
\<close>

theorem concatenate_with_padding_correct:
  assumes "tensors \<noteq> []"
    and "\<forall>t \<in> set tensors. nrows t = n \<and> wf_tensor t"
  shows "\<exists>out. concatenate_with_padding cfg tensors pad_to_left = Inr out
     \<and> ncols out = sum_list (map ncols tensors)
     \<and> nrows out = n
     \<and> wf_tensor out
     \<and> (\<forall>i < n.
          rows out ! i =
            (let joined = concat (map (\<lambda>t. rows t ! i) tensors)
             in if pad_to_left
                then pad_run (pad_token_id cfg) joined @ real_tokens (pad_token_id cfg) joined
                else real_tokens (pad_token_id cfg) joined @ pad_run (pad_token_id cfg) joined))"
proof -
  let ?pad = "pad_token_id cfg"
  let ?side = "\<lambda>r. if pad_to_left then pad_run ?pad r @ real_tokens ?pad r
                    else real_tokens ?pad r @ pad_run ?pad r"
  let ?joined = "\<lambda>i. concat (map (\<lambda>t. rows t ! i) tensors)"
  let ?w = "sum_list (map ncols tensors)"
  let ?cat = "\<lparr>ncols = ?w, rows = map ?joined [0..<n]\<rparr>"
  let ?out = "\<lparr>ncols = ?w, rows = map ?side (map ?joined [0..<n])\<rparr>"
  have cat: "cat_dim1 tensors = Inr ?cat"
    using assms by (intro cat_dim1_eq) simp_all
  obtain idx where conv: "convert_pad_structure cfg ?cat pad_to_left = Inr (?out, idx)"
    using convert_pad_structure_eq [of cfg ?cat pad_to_left] by simp
  have res: "concatenate_with_padding cfg tensors pad_to_left = Inr ?out"
    by (simp add: concatenate_with_padding_def cat conv)
  have len_side: "length (?side r) = length r" for r
    using length_pad_run_real_tokens [of r ?pad] by simp
  have len_joined: "length (?joined i) = ?w" if "i < n" for i
    using assms(2) that by (intro length_concat_rows) simp
  have "length (?side (?joined i)) = ?w" if "i < n" for i
    using len_joined [OF that] by (simp only: len_side)
  then have wf: "wf_tensor ?out"
    by (cases pad_to_left) (simp_all add: wf_tensor_def list_all_iff del: length_append)
  have row: "rows ?out ! i = ?side (?joined i)" if "i < n" for i
    using that by simp
  have "nrows ?out = n" by (simp add: nrows_def)
  moreover have "ncols ?out = ?w" by simp
  ultimately show ?thesis
    using res wf row unfolding Let_def by blast
qed

theorem concatenate_with_padding_correct_witness:
  "concatenate_with_padding example_config
      [\<lparr>ncols = 3, rows = [[0, 1, 2], [0, 0, 3]]\<rparr>, \<lparr>ncols = 2, rows = [[4, 0], [5, 6]]\<rparr>] True
     = Inr \<lparr>ncols = 5, rows = [[0, 0, 1, 2, 4], [0, 0, 3, 5, 6]]\<rparr>"
proof -
  let ?ts = "[\<lparr>ncols = 3, rows = [[0, 1, 2], [0, 0, 3]]\<rparr>,
              \<lparr>ncols = 2, rows = [[4, 0], [5, 6 :: int]]\<rparr>]"
  have h1: "?ts \<noteq> []" by simp
  have h2: "\<forall>t \<in> set ?ts. nrows t = 2 \<and> wf_tensor t"
    by (simp add: nrows_def wf_tensor_def)
  have ev: "concatenate_with_padding example_config ?ts True
     = Inr \<lparr>ncols = 5, rows = [[0, 0, 1, 2, 4], [0, 0, 3, 5, 6]]\<rparr>"
    by code_simp
  show ?thesis
    using concatenate_with_padding_correct [OF h1 h2, of example_config True] ev
    by simp
qed

section \<open>Effective length trimmer: properties\<close>

lemma slice_from_zero: "slice_from 0 t = t"
  by (simp add: slice_from_def slice_bound_def)

lemma cut_keys_ok:
  assumes "\<forall>k \<in> set keys. k \<in> dom td"
  shows "\<exists>res. cut_keys td cut_left e keys result = Inr res
     \<and> (\<forall>k. res k =
          (if k \<in> set keys
           then map_option (\<lambda>t. if cut_left then slice_from (- e) t else slice_upto e t) (td k)
           else result k))"
  using assms
proof (induction keys arbitrary: result)
  case Nil
  then show ?case by simp
next
  case (Cons key keys)
  then obtain t where t: "td key = Some t" by auto
  let ?result = "result(key \<mapsto> (if cut_left then slice_from (- e) t else slice_upto e t))"
  have prem: "\<forall>k \<in> set keys. k \<in> dom td" using Cons.prems by simp
  from Cons.IH [OF prem, of ?result] obtain res where
    res: "cut_keys td cut_left e keys ?result = Inr res"
    and cells: "\<And>k. res k =
          (if k \<in> set keys
           then map_option (\<lambda>t. if cut_left then slice_from (- e) t else slice_upto e t) (td k)
           else ?result k)"
    by blast
  have "res k =
          (if k \<in> set (key # keys)
           then map_option (\<lambda>t. if cut_left then slice_from (- e) t else slice_upto e t) (td k)
           else result k)" for k
    using cells [of k] t by simp
  then show ?case using res t by simp
qed

lemma cut_keys_missing:
  assumes "\<not> (\<forall>k \<in> set keys. k \<in> dom td)"
  shows "cut_keys td cut_left e keys result = Inl KeyError"
  using assms
proof (induction keys arbitrary: result)
  case Nil
  then show ?case by simp
next
  case (Cons key keys)
  show ?case
  proof (cases "td key")
    case None
    then show ?thesis by simp
  next
    case (Some t)
    then have "\<not> (\<forall>k \<in> set keys. k \<in> dom td)"
      using Cons.prems by auto
    then show ?thesis using Some by (simp add: Cons.IH)
  qed
qed

lemma effective_len_of_mask:
  assumes "td ''attention_mask'' = Some (create_attention_mask cfg t)" and "rows t \<noteq> []"
  shows "effective_len td
     = Inr (int (Max (set (map (\<lambda>r. length (real_tokens (pad_token_id cfg) r)) (rows t)))))"
proof -
  let ?cnt = "\<lambda>r. length (real_tokens (pad_token_id cfg) r)"
  have sums: "sum_dim1 (create_attention_mask cfg t) = map (\<lambda>r. int (?cnt r)) (rows t)"
    by (simp add: sum_dim1_def create_attention_mask_def map_tensor_def comp_def
        sum_list_mask_row)
  have "Max (set (map (\<lambda>r. int (?cnt r)) (rows t))) = Max (int ` set (map ?cnt (rows t)))"
    by (simp add: image_image)
  also have "\<dots> = int (Max (set (map ?cnt (rows t))))"
    using assms(2) by (intro mono_Max_commute [symmetric] monoI) simp_all
  finally have "tensor_max (map (\<lambda>r. int (?cnt r)) (rows t))
      = Inr (int (Max (set (map ?cnt (rows t)))))"
    using assms(2) by (simp add: tensor_max_nonempty)
  then show ?thesis
    using assms(1) by (simp add: effective_len_def sums)
qed

lemma real_tokens_drop_left_padded:
  assumes "r = pad_run pad r @ real_tokens pad r"
    and "length (real_tokens pad r) \<le> e"
  shows "real_tokens pad (drop (length r - e) r) = real_tokens pad r"
proof -
  let ?p = "count_list r pad"
  have len: "length r = ?p + length (real_tokens pad r)"
    using length_pad_run_real_tokens [of r pad] by simp
  then have n: "length r - e \<le> ?p" using assms(2) by simp
  have "drop (length r - e) (pad_run pad r @ real_tokens pad r)
      = replicate (?p - (length r - e)) pad @ real_tokens pad r"
    using n by simp
  then have "real_tokens pad (drop (length r - e) (pad_run pad r @ real_tokens pad r))
      = real_tokens pad r"
    by simp
  then show ?thesis using assms(1) by simp
qed

lemma real_tokens_take_right_padded:
  assumes "r = real_tokens pad r @ pad_run pad r"
    and "length (real_tokens pad r) \<le> e"
  shows "real_tokens pad (take e r) = real_tokens pad r"
proof -
  have "take e (real_tokens pad r @ pad_run pad r)
      = real_tokens pad r @ replicate (min (count_list r pad) (e - length (real_tokens pad r))) pad"
    using assms(2) by (simp add: min.commute)
  then have "real_tokens pad (take e (real_tokens pad r @ pad_run pad r)) = real_tokens pad r"
    by simp
  then show ?thesis using assms(1) by simp
qed

lemma slice_from_keeps_last:
  assumes "wf_tensor t" and "0 < e" and "e \<le> ncols t"
  shows "slice_from (- int e) t = keep_last_columns e t"
proof -
  have k: "slice_bound (- int e) (ncols t) = ncols t - e"
    using assms by (simp add: slice_bound_def)
  have "map (drop (ncols t - e)) (rows t) = map (\<lambda>r. drop (length r - e) r) (rows t)"
    using assms(1) by (intro map_cong) (simp_all add: wf_tensor_def list_all_iff)
  then show ?thesis
    using assms by (simp add: slice_from_def k keep_last_columns_def)
qed

lemma slice_upto_keeps_first:
  assumes "e \<le> ncols t"
  shows "slice_upto (int e) t = keep_first_columns e t"
  using assms by (simp add: slice_upto_def slice_bound_def keep_first_columns_def)

lemma cut_to_effective_len_keeps_real_tokens:
  fixes cfg :: TensorConfig
  defines "pad \<equiv> pad_token_id cfg"
  assumes keys: "\<forall>k \<in> set keys. k \<in> dom td"
    and key: "key \<in> set keys" "td key = Some t"
    and wf: "wf_tensor t" and rows: "rows t \<noteq> []"
    and mask: "td ''attention_mask'' = Some (create_attention_mask cfg t)"
    and side: "\<forall>r \<in> set (rows t).
        if cut_left then r = pad_run pad r @ real_tokens pad r
        else r = real_tokens pad r @ pad_run pad r"
  shows "\<exists>e res t'.
      e = Max (set (map (\<lambda>r. length (real_tokens pad r)) (rows t)))
    \<and> effective_len td = Inr (int e)
    \<and> cut_to_effective_len td keys cut_left = Inr res
    \<and> res key = Some t'
    \<and> (0 < e \<or> \<not> cut_left \<longrightarrow>
          t' = (if cut_left then keep_last_columns e t else keep_first_columns e t))
    \<and> nrows t' = nrows t
    \<and> (\<forall>i < nrows t. real_tokens pad (rows t' ! i) = real_tokens pad (rows t ! i))"
proof -
  let ?cnt = "\<lambda>r. length (real_tokens pad r)"
  define e where "e = Max (set (map ?cnt (rows t)))"
  have eff: "effective_len td = Inr (int e)"
    using effective_len_of_mask [of td cfg t] mask rows by (simp add: e_def pad_def)
  have cnt_le: "?cnt r \<le> e" if "r \<in> set (rows t)" for r
    using that by (simp add: e_def)
  have e_le: "e \<le> ncols t"
  proof -
    have "?cnt r \<le> ncols t" if "r \<in> set (rows t)" for r
    proof -
      have "length r = ncols t" using wf that by (simp add: wf_tensor_def list_all_iff)
      then show ?thesis using length_filter_le [of "\<lambda>x. x \<noteq> pad" r] by simp
    qed
    then show ?thesis using rows by (simp add: e_def)
  qed
  let ?slice = "\<lambda>t. if cut_left then slice_from (- int e) t else slice_upto (int e) t"
  obtain res where
    res: "cut_keys td cut_left (int e) keys td = Inr res"
    and cells: "\<And>k. res k = (if k \<in> set keys then map_option ?slice (td k) else td k)"
    using cut_keys_ok [OF keys, of cut_left "int e" td] by blast
  have cut: "cut_to_effective_len td keys cut_left = Inr res"
    by (simp add: cut_to_effective_len_def eff res)
  have at_key: "res key = Some (?slice t)"
    using cells [of key] key by simp
  have shape: "nrows (?slice t) = nrows t"
    by (simp add: nrows_def slice_from_def slice_upto_def Let_def)
  have spec: "?slice t = (if cut_left then keep_last_columns e t else keep_first_columns e t)"
    if "0 < e \<or> \<not> cut_left"
    using that wf e_le by (auto simp add: slice_from_keeps_last slice_upto_keeps_first)
  have toks: "real_tokens pad (rows (?slice t) ! i) = real_tokens pad (rows t ! i)"
    if i: "i < nrows t" for i
  proof -
    let ?r = "rows t ! i"
    have i': "i < length (rows t)" using i by (simp add: nrows_def)
    then have mem: "?r \<in> set (rows t)" by simp
    have len: "length ?r = ncols t" using wf mem by (simp add: wf_tensor_def list_all_iff)
    show ?thesis
    proof (cases cut_left)
      case True
      then have lp: "?r = pad_run pad ?r @ real_tokens pad ?r" using side mem by auto
      show ?thesis
      proof (cases "e = 0")
        case e0: True
        then show ?thesis using True by (simp add: slice_from_zero)
      next
        case False
        then have "slice_from (- int e) t = keep_last_columns e t"
          using wf e_le by (intro slice_from_keeps_last) simp_all
        then have "rows (?slice t) ! i = drop (length ?r - e) ?r"
          using True i' by (simp add: keep_last_columns_def)
        then show ?thesis
          using real_tokens_drop_left_padded [OF lp cnt_le [OF mem]] by simp
      qed
    next
      case False
      then have rp: "?r = real_tokens pad ?r @ pad_run pad ?r" using side mem by auto
      have "rows (?slice t) ! i = take e ?r"
        using False i' e_le by (simp add: slice_upto_keeps_first keep_first_columns_def)
      then show ?thesis
        using real_tokens_take_right_padded [OF rp cnt_le [OF mem]] by simp
    qed
  qed
  show ?thesis
    using e_def eff cut at_key spec shape toks by blast
qed

text \<open>
  An instance: a left-padded batch whose longest row has two real tokens is cut to its
  last two columns, and each row keeps its real tokens.
\<close>

lemma cut_to_effective_len_keeps_real_tokens_example:
  "result_at
     (cut_to_effective_len
        [''input_ids'' \<mapsto> \<lparr>ncols = 3, rows = [[0, 1, 2], [0, 0, 3]]\<rparr>,
         ''attention_mask'' \<mapsto>
           create_attention_mask example_config \<lparr>ncols = 3, rows = [[0, 1, 2], [0, 0, 3]]\<rparr>]
        [''input_ids''] True)
     ''input_ids''
   = Inr (Some \<lparr>ncols = 2, rows = [[1, 2], [0, 3]]\<rparr>)"
proof -
  let ?t = "\<lparr>ncols = 3, rows = [[0, 1, 2], [0, 0, 3 :: int]]\<rparr>"
  let ?td = "[''input_ids'' \<mapsto> ?t,
              ''attention_mask'' \<mapsto> create_attention_mask example_config ?t]"
  have keys: "\<forall>k \<in> set [''input_ids'']. k \<in> dom ?td" by simp
  have key: "''input_ids'' \<in> set [''input_ids'']" "?td ''input_ids'' = Some ?t" by simp_all
  have wf: "wf_tensor ?t" and rows: "rows ?t \<noteq> []" by (simp_all add: wf_tensor_def)
  have mask: "?td ''attention_mask'' = Some (create_attention_mask example_config ?t)" by simp
  have side: "\<forall>r \<in> set (rows ?t).
        if True then r = pad_run (pad_token_id example_config) r
                       @ real_tokens (pad_token_id example_config) r
        else r = real_tokens (pad_token_id example_config) r
                   @ pad_run (pad_token_id example_config) r"
    by (simp add: example_config_def)
  have ev: "result_at (cut_to_effective_len ?td [''input_ids''] True) ''input_ids''
      = Inr (Some \<lparr>ncols = 2, rows = [[1, 2], [0, 3]]\<rparr>)"
    by (simp add: example_config_def create_attention_mask_def map_tensor_def
        cut_to_effective_len_def effective_len_def sum_dim1_def slice_from_def slice_bound_def
        result_at_def)
  show ?thesis
    using cut_to_effective_len_keeps_real_tokens [OF keys key wf rows mask side] ev
    by simp
qed

lemma effective_len_all_padded:
  assumes "td ''attention_mask'' = Some m" and "rows m \<noteq> []"
    and "list_all (list_all (\<lambda>c. c = 0)) (rows m)"
  shows "effective_len td = Inr 0"
proof -
  have "sum_list r = 0" if "r \<in> set (rows m)" for r
  proof -
    have "list_all (\<lambda>c. c = 0) r" using assms(3) that by (simp add: list_all_iff)
    then show ?thesis by (induction r) simp_all
  qed
  then have "set (sum_dim1 m) = {0}"
    using assms(2) by (cases "rows m") (auto simp add: sum_dim1_def)
  moreover have "sum_dim1 m \<noteq> []" using assms(2) by (simp add: sum_dim1_def)
  ultimately have "tensor_max (sum_dim1 m) = Inr 0"
    by (simp add: tensor_max_nonempty)
  then show ?thesis using assms(1) by (simp add: effective_len_def)
qed

lemma cut_left_all_padded_unchanged:
  assumes "td ''attention_mask'' = Some m" and "rows m \<noteq> []"
    and "list_all (list_all (\<lambda>c. c = 0)) (rows m)"
    and "\<forall>k \<in> set keys. k \<in> dom td"
  shows "cut_to_effective_len td keys True = Inr td"
proof -
  obtain res where
    res: "cut_keys td True 0 keys td = Inr res"
    and cells: "\<And>k. res k =
          (if k \<in> set keys
           then map_option (\<lambda>t. if True then slice_from (- 0) t else slice_upto 0 t) (td k)
           else td k)"
    using cut_keys_ok [OF assms(4), of True 0 td] by blast
  have "res k = td k" for k
    using cells [of k] by (cases "td k") (simp_all add: slice_from_zero)
  then have "res = td" by (rule ext)
  then show ?thesis
    using res effective_len_all_padded [of td m] assms(1-3)
    by (simp add: cut_to_effective_len_def)
qed

lemma cut_right_all_padded_zero_width:
  assumes "td ''attention_mask'' = Some m" and "rows m \<noteq> []"
    and "list_all (list_all (\<lambda>c. c = 0)) (rows m)"
    and "\<forall>k \<in> set keys. k \<in> dom td"
  shows "\<exists>res. cut_to_effective_len td keys False = Inr res
     \<and> (\<forall>k \<in> set keys. \<forall>t. td k = Some t \<longrightarrow>
           res k = Some \<lparr>ncols = 0, rows = map (\<lambda>r. []) (rows t)\<rparr>)"
proof -
  obtain res where
    res: "cut_keys td False 0 keys td = Inr res"
    and cells: "\<And>k. res k =
          (if k \<in> set keys
           then map_option (\<lambda>t. if False then slice_from (- 0) t else slice_upto 0 t) (td k)
           else td k)"
    using cut_keys_ok [OF assms(4), of False 0 td] by blast
  have "res k = Some \<lparr>ncols = 0, rows = map (\<lambda>r. []) (rows t)\<rparr>"
    if "k \<in> set keys" "td k = Some t" for k t
    using cells [of k] that by (simp add: slice_upto_def slice_bound_def)
  then show ?thesis
    using res effective_len_all_padded [of td m] assms(1-3)
    by (simp add: cut_to_effective_len_def)
qed

text \<open>
  C1. A batch of two fully padded rows of width 2, with its all-zero attention mask. The
  effective length is 0 and nothing is raised. With \<open>cut_left = False\<close> the slice
  \<^verbatim>\<open>[:, :0]\<close> gives the zero-width tensor that is specified. With \<open>cut_left = True\<close> the
  slice is \<^verbatim>\<open>[:, -0:]\<close>, that is \<^verbatim>\<open>[:, 0:]\<close>: the tensor comes back with its full
  width 2, not with width 0. (In general, by \<open>cut_left_all_padded_unchanged\<close>, the
  dictionary is returned unchanged for every fully padded batch.)
\<close>

theorem cut_all_padded_left_keeps_width:
  "effective_len all_pad_dict = Inr 0
   \<and> result_at (cut_to_effective_len all_pad_dict [''input_ids''] True) ''input_ids''
       = Inr (Some \<lparr>ncols = 2, rows = [[0, 0], [0, 0]]\<rparr>)
   \<and> result_at (cut_to_effective_len all_pad_dict [''input_ids''] False) ''input_ids''
       = Inr (Some \<lparr>ncols = 0, rows = [[], []]\<rparr>)"
  by (simp add: all_pad_dict_def cut_to_effective_len_def effective_len_def sum_dim1_def
      slice_from_def slice_upto_def slice_bound_def result_at_def)

text \<open>
  C5. A batch of two fully padded rows of width 3, whose mask is derived by
  \<open>create_attention_mask\<close>; every row is padded on the left. The effective length is 0,
  the maximum number of non-pad tokens of a row, and with \<open>cut_left = True\<close> the source
  keeps all 3 columns, whereas the last \<open>effective_len\<close> columns are no column at all;
  with \<open>cut_left = False\<close> it keeps the first 0 columns, as specified. The rest of the
  contract holds (\<open>cut_to_effective_len_keeps_real_tokens\<close>): the effective length is
  the maximum count, for a positive effective length the slices are the last and the
  first \<open>effective_len\<close> columns, and no real token of a row is ever lost.
\<close>

theorem cut_left_zero_length_keeps_all_columns:
  "effective_len all_pad_batch_dict = Inr 0
   \<and> result_at (cut_to_effective_len all_pad_batch_dict [''input_ids'', ''attention_mask''] True)
        ''input_ids''
       = Inr (Some \<lparr>ncols = 3, rows = [[0, 0, 0], [0, 0, 0]]\<rparr>)
   \<and> keep_last_columns 0 all_pad_batch = \<lparr>ncols = 0, rows = [[], []]\<rparr>
   \<and> result_at (cut_to_effective_len all_pad_batch_dict [''input_ids'', ''attention_mask''] False)
        ''input_ids''
       = Inr (Some (keep_first_columns 0 all_pad_batch))"
  by (simp add: all_pad_batch_dict_def all_pad_batch_def example_config_def
      create_attention_mask_def map_tensor_def cut_to_effective_len_def effective_len_def
      sum_dim1_def slice_from_def slice_upto_def slice_bound_def result_at_def
      keep_last_columns_def keep_first_columns_def)

section \<open>Active-example scatterer: properties\<close>

lemma count_true_simps [simp]:
  "count_true [] = 0"
  "count_true (True # ms) = Suc (count_true ms)"
  "count_true (False # ms) = count_true ms"
  by (simp_all add: count_true_def)

lemma count_true_Cons: "count_true (m # ms) = (if m then Suc (count_true ms) else count_true ms)"
  by (cases m) simp_all

lemma count_true_zero: "count_true ms = 0 \<Longrightarrow> j < length ms \<Longrightarrow> \<not> ms ! j"
  by (induction ms arbitrary: j) (auto simp add: count_true_Cons nth_Cons split: nat.splits if_splits)

lemma length_scatter_rows [simp]: "length (scatter_rows ds ms ss) = length ds"
  by (induction ds ms ss rule: scatter_rows.induct) simp_all

lemma scatter_rows_nth:
  assumes "length ms = length ds" and "count_true ms \<le> length ss" and "j < length ds"
  shows "scatter_rows ds ms ss ! j = (if ms ! j then ss ! count_true (take j ms) else ds ! j)"
  using assms
proof (induction ds arbitrary: ms ss j)
  case Nil
  then show ?case by simp
next
  case (Cons d ds)
  then obtain m ms' where ms: "ms = m # ms'" by (cases ms) simp_all
  show ?case
  proof (cases ss)
    case Nil
    then have "count_true ms = 0" using Cons.prems by simp
    then have "\<not> ms ! j" using Cons.prems by (intro count_true_zero) simp_all
    then show ?thesis using Nil ms by simp
  next
    case (Cons s ss')
    show ?thesis
    proof (cases j)
      case 0
      then show ?thesis using ms Cons by simp
    next
      case (Suc k)
      have k: "k < length ds" using Suc Cons.prems(3) by simp
      have len: "length ms' = length ds" using ms Cons.prems(1) by simp
      show ?thesis
      proof (cases m)
        case True
        have "count_true ms' \<le> length ss'"
          using Cons.prems(2) ms True Cons by simp
        from Cons.IH [OF len this k] show ?thesis
          using ms True Cons Suc by simp
      next
        case False
        have "count_true ms' \<le> length ss"
          using Cons.prems(2) ms False by simp
        from Cons.IH [OF len this k] show ?thesis
          using ms False Cons Suc by simp
      qed
    qed
  qed
qed

lemma fill_responses_str_ok:
  assumes "i + length ms = length padded" and "s + count_true ms \<le> length strs"
  shows "\<exists>out. fill_responses_str strs i ms padded s = Inr out
     \<and> length out = length padded
     \<and> (\<forall>j < length padded. out ! j =
           (if i \<le> j \<and> ms ! (j - i) then strs ! (s + count_true (take (j - i) ms))
            else padded ! j))"
  using assms
proof (induction ms arbitrary: i padded s)
  case Nil
  then show ?case by simp
next
  case (Cons m ms)
  show ?case
  proof (cases m)
    case True
    let ?padded = "padded[i := strs ! s]"
    have s: "s < length strs" using Cons.prems True by simp
    have a: "Suc i + length ms = length ?padded" using Cons.prems by simp
    have b: "Suc s + count_true ms \<le> length strs" using Cons.prems True by simp
    from Cons.IH [OF a b] obtain out where
      out: "fill_responses_str strs (Suc i) ms ?padded (Suc s) = Inr out"
      and len: "length out = length padded"
      and cells: "\<And>j. j < length padded \<Longrightarrow> out ! j =
           (if Suc i \<le> j \<and> ms ! (j - Suc i)
            then strs ! (Suc s + count_true (take (j - Suc i) ms)) else ?padded ! j)"
      by auto
    have "out ! j = (if i \<le> j \<and> (m # ms) ! (j - i)
            then strs ! (s + count_true (take (j - i) (m # ms))) else padded ! j)"
      if j: "j < length padded" for j
    proof (cases "j \<le> i")
      case le: True
      then show ?thesis using cells [OF j] j True by (cases "j = i") simp_all
    next
      case False
      define k where "k = j - Suc i"
      have k: "j - i = Suc k" "j - Suc i = k"
        using False by (simp_all add: k_def)
      show ?thesis using cells [OF j] False True k by simp
    qed
    then show ?thesis using out len True s by simp
  next
    case False
    have a: "Suc i + length ms = length padded" using Cons.prems by simp
    have b: "s + count_true ms \<le> length strs" using Cons.prems False by simp
    from Cons.IH [OF a b] obtain out where
      out: "fill_responses_str strs (Suc i) ms padded s = Inr out"
      and len: "length out = length padded"
      and cells: "\<And>j. j < length padded \<Longrightarrow> out ! j =
           (if Suc i \<le> j \<and> ms ! (j - Suc i)
            then strs ! (s + count_true (take (j - Suc i) ms)) else padded ! j)"
      by auto
    have "out ! j = (if i \<le> j \<and> (m # ms) ! (j - i)
            then strs ! (s + count_true (take (j - i) (m # ms))) else padded ! j)"
      if j: "j < length padded" for j
    proof (cases "j \<le> i")
      case le: True
      then show ?thesis using cells [OF j] j False by (cases "j = i") simp_all
    next
      case nle: False
      define k where "k = j - Suc i"
      have k: "j - i = Suc k" "j - Suc i = k"
        using nle by (simp_all add: k_def)
      show ?thesis using cells [OF j] nle False k by simp
    qed
    then show ?thesis using out len False by simp
  qed
qed

lemma fill_responses_str_short:
  assumes "length strs < s + count_true ms" and "s \<le> length strs"
  shows "fill_responses_str strs i ms padded s = Inl IndexError"
  using assms
proof (induction ms arbitrary: i padded s)
  case Nil
  then show ?case by simp
next
  case (Cons m ms)
  then show ?case by (cases m) simp_all
qed

lemma masked_assign_full:
  assumes "count_true active_mask = nrows src"
  shows "masked_assign (full (length active_mask) (ncols src) v) active_mask src
     = Inr \<lparr>ncols = ncols src,
            rows = scatter_rows (replicate (length active_mask) (replicate (ncols src) v))
                     active_mask (rows src)\<rparr>"
  using assms by (simp add: masked_assign_def full_def nrows_def)

lemma scattered_row:
  assumes "count_true active_mask = nrows src" and "j < length active_mask"
  shows "scatter_rows (replicate (length active_mask) (replicate w v)) active_mask (rows src) ! j
     = (if active_mask ! j then rows src ! count_true (take j active_mask) else replicate w v)"
proof -
  have "scatter_rows (replicate (length active_mask) (replicate w v)) active_mask (rows src) ! j
     = (if active_mask ! j then rows src ! count_true (take j active_mask)
        else replicate (length active_mask) (replicate w v) ! j)"
    using assms by (intro scatter_rows_nth) (simp_all add: nrows_def)
  then show ?thesis using assms(2) by simp
qed

lemma example_level_pad_tensor_eq:
  assumes "count_true active_mask = nrows x"
  shows "example_level_pad_tensor x active_mask pad_value
     = Inr \<lparr>ncols = ncols x,
            rows = scatter_rows (replicate (length active_mask) (replicate (ncols x) pad_value))
                     active_mask (rows x)\<rparr>"
  using assms by (simp add: example_level_pad_tensor_def masked_assign_full)

lemma example_level_pad_eq:
  assumes "count_true active_mask = nrows responses"
  shows "example_level_pad cfg responses responses_str active_mask
     = (case fill_responses_str responses_str 0 active_mask
               (replicate (length active_mask) []) 0 of
          Inl e \<Rightarrow> Inl e
        | Inr padded_responses_str \<Rightarrow>
            Inr (\<lparr>ncols = ncols responses,
                  rows = scatter_rows
                    (replicate (length active_mask)
                       (replicate (ncols responses) (pad_token_id cfg)))
                    active_mask (rows responses)\<rparr>,
                 padded_responses_str))"
  using assms by (simp add: example_level_pad_def masked_assign_full Let_def)

text \<open>
  C7. The active-only input of the string variant is the tensor \<open>responses\<close> with the
  list \<open>responses_str\<close>, one string for each of its rows. When the number of true
  entries of \<open>active_mask\<close> equals the number of rows of the active-only input, both
  variants return and the output has \<open>len(active_mask)\<close> rows of the width of the
  input; the row at a true position is the active row whose index is the number of true
  entries before that position (the \<open>i\<close>-th true position receives the \<open>i\<close>-th active
  row), and every other row is filled with the pad value (\<open>pad_token_id\<close> in the token
  variant, the caller's \<open>pad_value\<close> in the generic one); the strings follow the same
  rule, consumed from left to right, with the empty string at the inactive positions.
\<close>

theorem example_level_pad_scatters:
  "(count_true active_mask = nrows responses
      \<and> length responses_str = nrows responses \<longrightarrow>
      (\<exists>out out_str.
          example_level_pad cfg responses responses_str active_mask = Inr (out, out_str)
        \<and> nrows out = length active_mask \<and> ncols out = ncols responses
        \<and> length out_str = length active_mask
        \<and> (\<forall>j < length active_mask.
              rows out ! j =
                (if active_mask ! j then rows responses ! count_true (take j active_mask)
                 else replicate (ncols responses) (pad_token_id cfg))
            \<and> out_str ! j =
                (if active_mask ! j then responses_str ! count_true (take j active_mask)
                 else []))))
   \<and> (count_true active_mask = nrows x \<longrightarrow>
      (\<exists>out.
          example_level_pad_tensor x active_mask pad_value = Inr out
        \<and> nrows out = length active_mask \<and> ncols out = ncols x
        \<and> (\<forall>j < length active_mask.
              rows out ! j =
                (if active_mask ! j then rows x ! count_true (take j active_mask)
                 else replicate (ncols x) pad_value))))"
proof (intro conjI impI)
  assume pre: "count_true active_mask = nrows responses
      \<and> length responses_str = nrows responses"
  let ?out = "\<lparr>ncols = ncols responses,
                  rows = scatter_rows
                    (replicate (length active_mask)
                       (replicate (ncols responses) (pad_token_id cfg)))
                    active_mask (rows responses)\<rparr>"
  have "0 + length active_mask = length (replicate (length active_mask) ([] :: string))"
    by simp
  moreover have "0 + count_true active_mask \<le> length responses_str"
    using pre by simp
  ultimately obtain out_str where
    fill: "fill_responses_str responses_str 0 active_mask (replicate (length active_mask) []) 0
             = Inr out_str"
    and len: "length out_str = length (replicate (length active_mask) ([] :: string))"
    and strs: "\<forall>j < length (replicate (length active_mask) ([] :: string)). out_str ! j =
           (if 0 \<le> j \<and> active_mask ! (j - 0)
            then responses_str ! (0 + count_true (take (j - 0) active_mask))
            else replicate (length active_mask) [] ! j)"
    using fill_responses_str_ok
      [of 0 active_mask "replicate (length active_mask) []" 0 responses_str]
    by blast
  have res: "example_level_pad cfg responses responses_str active_mask = Inr (?out, out_str)"
    using pre by (simp add: example_level_pad_eq fill)
  have shape: "nrows ?out = length active_mask" "ncols ?out = ncols responses"
    "length out_str = length active_mask"
    using len by (simp_all add: nrows_def)
  have cells: "rows ?out ! j =
                (if active_mask ! j then rows responses ! count_true (take j active_mask)
                 else replicate (ncols responses) (pad_token_id cfg))
            \<and> out_str ! j =
                (if active_mask ! j then responses_str ! count_true (take j active_mask)
                 else [])" if j: "j < length active_mask" for j
    using scattered_row [of active_mask responses j "ncols responses" "pad_token_id cfg"]
      pre j strs by simp
  show "\<exists>out out_str.
          example_level_pad cfg responses responses_str active_mask = Inr (out, out_str)
        \<and> nrows out = length active_mask \<and> ncols out = ncols responses
        \<and> length out_str = length active_mask
        \<and> (\<forall>j < length active_mask.
              rows out ! j =
                (if active_mask ! j then rows responses ! count_true (take j active_mask)
                 else replicate (ncols responses) (pad_token_id cfg))
            \<and> out_str ! j =
                (if active_mask ! j then responses_str ! count_true (take j active_mask)
                 else []))"
    using res shape cells by blast
next
  assume pre: "count_true active_mask = nrows x"
  let ?out = "\<lparr>ncols = ncols x,
            rows = scatter_rows (replicate (length active_mask) (replicate (ncols x) pad_value))
                     active_mask (rows x)\<rparr>"
  have res: "example_level_pad_tensor x active_mask pad_value = Inr ?out"
    using pre by (rule example_level_pad_tensor_eq)
  have shape: "nrows ?out = length active_mask" "ncols ?out = ncols x"
    by (simp_all add: nrows_def)
  have cells: "rows ?out ! j =
                (if active_mask ! j then rows x ! count_true (take j active_mask)
                 else replicate (ncols x) pad_value)" if j: "j < length active_mask" for j
    using scattered_row [of active_mask x j "ncols x" pad_value] pre j by simp
  show "\<exists>out.
          example_level_pad_tensor x active_mask pad_value = Inr out
        \<and> nrows out = length active_mask \<and> ncols out = ncols x
        \<and> (\<forall>j < length active_mask.
              rows out ! j =
                (if active_mask ! j then rows x ! count_true (take j active_mask)
                 else replicate (ncols x) pad_value))"
    using res shape cells by blast
qed

text \<open>
  The example of the specification: mask \<open>[True, False, True]\<close>, active rows
  \<open>[A, B]\<close> and strings \<open>["x", "y"]\<close> give rows \<open>[A, pad_row, B]\<close> and strings
  \<open>["x", "", "y"]\<close>.
\<close>

theorem example_level_pad_scatters_witness:
  "count_true [True, False, True] = nrows \<lparr>ncols = 2, rows = [[1, 2], [3, 4 :: int]]\<rparr>
   \<and> length [''x'', ''y''] = nrows \<lparr>ncols = 2, rows = [[1, 2], [3, 4 :: int]]\<rparr>
   \<and> example_level_pad example_config \<lparr>ncols = 2, rows = [[1, 2], [3, 4]]\<rparr> [''x'', ''y'']
         [True, False, True]
       = Inr (\<lparr>ncols = 2, rows = [[1, 2], [0, 0], [3, 4]]\<rparr>, [''x'', [], ''y''])
   \<and> example_level_pad_tensor \<lparr>ncols = 2, rows = [[1, 2], [3, 4 :: int]]\<rparr> [True, False, True] 9
       = Inr \<lparr>ncols = 2, rows = [[1, 2], [9, 9], [3, 4]]\<rparr>"
proof -
  have ev: "count_true [True, False, True] = nrows \<lparr>ncols = 2, rows = [[1, 2], [3, 4 :: int]]\<rparr>"
    "length [''x'', ''y''] = nrows \<lparr>ncols = 2, rows = [[1, 2], [3, 4 :: int]]\<rparr>"
    "example_level_pad example_config \<lparr>ncols = 2, rows = [[1, 2], [3, 4]]\<rparr> [''x'', ''y'']
         [True, False, True]
       = Inr (\<lparr>ncols = 2, rows = [[1, 2], [0, 0], [3, 4]]\<rparr>, [''x'', [], ''y''])"
    "example_level_pad_tensor \<lparr>ncols = 2, rows = [[1, 2], [3, 4 :: int]]\<rparr> [True, False, True] 9
       = Inr \<lparr>ncols = 2, rows = [[1, 2], [9, 9], [3, 4]]\<rparr>"
    by code_simp+
  show ?thesis
    using example_level_pad_scatters
      [of "[True, False, True]" "\<lparr>ncols = 2, rows = [[1, 2], [3, 4]]\<rparr>" "[''x'', ''y'']"
        example_config "\<lparr>ncols = 2, rows = [[1, 2], [3, 4 :: int]]\<rparr>" 9] ev
    by simp
qed

text \<open>
  C8. For an active-only input (the rows of the tensor and, in the string variant, one
  string for each row): each variant fails with \<^verbatim>\<open>AssertionError\<close> if and only if
  the number of true entries of \<open>active_mask\<close> differs from the number of rows of the
  active-only input. The assertion is the first statement, so on violation nothing is
  truncated or padded: no output is produced. When the equality holds neither variant
  raises: any failure of either variant is this violation.
\<close>

theorem example_level_pad_assertion:
  assumes "length responses_str = nrows responses"
  shows "(example_level_pad cfg responses responses_str active_mask = Inl AssertionError
      \<longleftrightarrow> count_true active_mask \<noteq> nrows responses)
   \<and> (example_level_pad_tensor x active_mask pad_value = Inl AssertionError
      \<longleftrightarrow> count_true active_mask \<noteq> nrows x)
   \<and> ((\<exists>e. example_level_pad cfg responses responses_str active_mask = Inl e)
      \<longleftrightarrow> count_true active_mask \<noteq> nrows responses)
   \<and> ((\<exists>e. example_level_pad_tensor x active_mask pad_value = Inl e)
      \<longleftrightarrow> count_true active_mask \<noteq> nrows x)
   \<and> (count_true active_mask = nrows responses \<longrightarrow>
        (\<exists>out out_str.
           example_level_pad cfg responses responses_str active_mask = Inr (out, out_str)))
   \<and> (count_true active_mask = nrows x \<longrightarrow>
        (\<exists>out. example_level_pad_tensor x active_mask pad_value = Inr out))"
proof -
  have t_ok: "\<exists>out. example_level_pad_tensor x active_mask pad_value = Inr out"
    if "count_true active_mask = nrows x"
    using that by (simp add: example_level_pad_tensor_eq)
  have t_bad: "example_level_pad_tensor x active_mask pad_value = Inl AssertionError"
    if "count_true active_mask \<noteq> nrows x"
    using that by (simp add: example_level_pad_tensor_def)
  have s_bad: "example_level_pad cfg responses responses_str active_mask = Inl AssertionError"
    if "count_true active_mask \<noteq> nrows responses"
    using that by (simp add: example_level_pad_def)
  have s_ok: "\<exists>out out_str.
      example_level_pad cfg responses responses_str active_mask = Inr (out, out_str)"
    if eq: "count_true active_mask = nrows responses"
  proof -
    have enough: "0 + count_true active_mask \<le> length responses_str"
      using eq assms by simp
    obtain out_str where
      "fill_responses_str responses_str 0 active_mask (replicate (length active_mask) []) 0
         = Inr out_str"
      using fill_responses_str_ok
        [of 0 active_mask "replicate (length active_mask) []" 0 responses_str] enough
      by auto
    then show ?thesis using eq by (simp add: example_level_pad_eq)
  qed
  have s_iff: "example_level_pad cfg responses responses_str active_mask = Inl AssertionError
      \<longleftrightarrow> count_true active_mask \<noteq> nrows responses"
    using s_bad s_ok by fastforce
  have t_iff: "example_level_pad_tensor x active_mask pad_value = Inl AssertionError
      \<longleftrightarrow> count_true active_mask \<noteq> nrows x"
    using t_bad t_ok by fastforce
  have s_any: "(\<exists>e. example_level_pad cfg responses responses_str active_mask = Inl e)
      \<longleftrightarrow> count_true active_mask \<noteq> nrows responses"
    using s_bad s_ok by fastforce
  have t_any: "(\<exists>e. example_level_pad_tensor x active_mask pad_value = Inl e)
      \<longleftrightarrow> count_true active_mask \<noteq> nrows x"
    using t_bad t_ok by fastforce
  show ?thesis
    using s_iff t_iff s_any t_any s_ok t_ok by blast
qed

text \<open>
  A violation (two true entries, one active row with its string) and a correct call (one
  true entry, one active row with its string).
\<close>

theorem example_level_pad_assertion_witness:
  "length [''a''] = nrows \<lparr>ncols = 1, rows = [[5 :: int]]\<rparr>
   \<and> count_true [True, True] \<noteq> nrows \<lparr>ncols = 1, rows = [[5 :: int]]\<rparr>
   \<and> example_level_pad example_config \<lparr>ncols = 1, rows = [[5]]\<rparr> [''a''] [True, True]
       = Inl AssertionError
   \<and> example_level_pad_tensor \<lparr>ncols = 1, rows = [[5 :: int]]\<rparr> [True, True] 0
       = Inl AssertionError
   \<and> count_true [False, True] = nrows \<lparr>ncols = 1, rows = [[5 :: int]]\<rparr>
   \<and> example_level_pad example_config \<lparr>ncols = 1, rows = [[5]]\<rparr> [''a''] [False, True]
       = Inr (\<lparr>ncols = 1, rows = [[0], [5]]\<rparr>, [[], ''a''])
   \<and> example_level_pad_tensor \<lparr>ncols = 1, rows = [[5 :: int]]\<rparr> [False, True] 0
       = Inr \<lparr>ncols = 1, rows = [[0], [5]]\<rparr>"
proof -
  have h: "length [''a''] = nrows \<lparr>ncols = 1, rows = [[5 :: int]]\<rparr>"
    by (simp add: nrows_def)
  have ev: "count_true [True, True] \<noteq> nrows \<lparr>ncols = 1, rows = [[5 :: int]]\<rparr>"
    "count_true [False, True] = nrows \<lparr>ncols = 1, rows = [[5 :: int]]\<rparr>"
    "example_level_pad example_config \<lparr>ncols = 1, rows = [[5]]\<rparr> [''a''] [False, True]
       = Inr (\<lparr>ncols = 1, rows = [[0], [5]]\<rparr>, [[], ''a''])"
    "example_level_pad_tensor \<lparr>ncols = 1, rows = [[5 :: int]]\<rparr> [False, True] 0
       = Inr \<lparr>ncols = 1, rows = [[0], [5]]\<rparr>"
    by code_simp+
  show ?thesis
    using example_level_pad_assertion
        [OF h, of example_config "[True, True]" "\<lparr>ncols = 1, rows = [[5 :: int]]\<rparr>" 0]
      example_level_pad_assertion
        [OF h, of example_config "[False, True]" "\<lparr>ncols = 1, rows = [[5 :: int]]\<rparr>" 0]
      h ev
    by simp
qed

section \<open>Ragged stacker: properties\<close>

text \<open>
  C9. For a non-empty list of 1-D sequences the stacker returns a tensor with one row per
  sequence, in the order of the list, whose width is the maximum length; row \<open>i\<close> is
  sequence \<open>i\<close> unchanged with as many copies of the pad value as it is shorter than the
  width, on the left when \<open>pad_to_left\<close> and on the right otherwise; no sequence is
  longer than the width, so nothing is cut. The pad value is \<open>pad_token_id\<close> when none is
  given.
\<close>

theorem pad_and_stack_correct:
  assumes "tensor_list \<noteq> []"
  shows "\<exists>out. pad_and_stack cfg tensor_list pad_to_left pad_value = Inr out
    \<and> nrows out = length tensor_list
    \<and> ncols out = Max (set (map length tensor_list))
    \<and> wf_tensor out
    \<and> (\<forall>i < length tensor_list.
          length (tensor_list ! i) \<le> ncols out
        \<and> rows out ! i =
            (let pv = (case pad_value of None \<Rightarrow> pad_token_id cfg | Some v \<Rightarrow> v);
                 k = ncols out - length (tensor_list ! i)
             in if pad_to_left then replicate k pv @ tensor_list ! i
                else tensor_list ! i @ replicate k pv))"
proof -
  let ?m = "Max (set (map length tensor_list))"
  have mx: "py_max (map length tensor_list) = Inr ?m"
    using assms by (simp add: py_max_nonempty)
  have le: "length t \<le> ?m" if "t \<in> set tensor_list" for t
    using that by (simp add: Max_ge)
  show ?thesis
    using le by (auto simp add: pad_and_stack_def mx nrows_def wf_tensor_def list_all_iff Let_def)
qed

text \<open>
  The example of the specification: \<open>[[1,2,3],[4,5]]\<close> with pad value 0 gives
  \<open>[[1,2,3],[4,5,0]]\<close> padded on the right and \<open>[[1,2,3],[0,4,5]]\<close> padded on the left
  (here through the default pad value, the pad token 0 of the configuration).
\<close>

theorem pad_and_stack_correct_witness:
  "[[1, 2, 3], [4, 5]] \<noteq> ([] :: int list list)
   \<and> pad_and_stack example_config [[1, 2, 3], [4, 5]] False (Some 0)
       = Inr \<lparr>ncols = 3, rows = [[1, 2, 3], [4, 5, 0]]\<rparr>
   \<and> pad_and_stack example_config [[1, 2, 3], [4, 5]] True None
       = Inr \<lparr>ncols = 3, rows = [[1, 2, 3], [0, 4, 5]]\<rparr>"
proof -
  have h: "[[1, 2, 3], [4, 5]] \<noteq> ([] :: int list list)" by simp
  show ?thesis
    using pad_and_stack_correct [OF h, of example_config False "Some 0"]
      pad_and_stack_correct [OF h, of example_config True None]
    by (simp add: pad_and_stack_def example_config_def)
qed

text \<open>
  C10. The ragged stacker applied to the empty list raises: the maximum of no lengths is
  undefined (\<^verbatim>\<open>ValueError\<close>), so no tensor is returned for this input, whatever the
  padding side and pad value.
\<close>

theorem pad_and_stack_empty_raises:
  "pad_and_stack cfg [] pad_to_left pad_value = Inl ValueError"
  by (simp add: pad_and_stack_def)

end
